theory Spec2Isabelle
  imports Complex_Main
begin

section \<open>Data model of performance.h\<close>

text \<open>
  The embedding follows \<^verbatim>\<open>performance.h\<close> and \<^verbatim>\<open>performance.c\<close>.
  C \<^verbatim>\<open>double\<close> values are modelled by real numbers, \<^verbatim>\<open>size_t\<close> and \<^verbatim>\<open>uint64_t\<close> by
  natural numbers, \<^verbatim>\<open>int\<close> and \<^verbatim>\<open>long\<close> by integers, a \<^verbatim>\<open>char\<close> array holding a
  NUL-terminated string by the string before the terminator, and a pointer that may be
  \<^verbatim>\<open>NULL\<close> by an option. The enumeration \<^verbatim>\<open>perf_milestone_t\<close> has no negative
  enumerator and is compared with \<^verbatim>\<open>PERF_MILESTONE_COUNT\<close> as an unsigned value, so a
  milestone is a natural number.
\<close>

definition PERF_MAX_LABEL_LEN :: nat where "PERF_MAX_LABEL_LEN = 64"
definition PERF_MAX_LOG_ENTRIES :: nat where "PERF_MAX_LOG_ENTRIES = 10000"
definition PERF_MAX_THREADS :: nat where "PERF_MAX_THREADS = 256"

datatype perf_output_format_t = PERF_FORMAT_HUMAN | PERF_FORMAT_CSV | PERF_FORMAT_JSON | PERF_FORMAT_TSV
datatype perf_log_level_t = PERF_LOG_ERROR | PERF_LOG_WARN | PERF_LOG_INFO | PERF_LOG_DEBUG | PERF_LOG_TRACE
datatype perf_granularity_t =
  PERF_GRANULARITY_COARSE | PERF_GRANULARITY_MEDIUM | PERF_GRANULARITY_FINE | PERF_GRANULARITY_DEBUG

definition PERF_MILESTONE_CLUSTERING_ITERATION :: nat where "PERF_MILESTONE_CLUSTERING_ITERATION = 21"
definition PERF_MILESTONE_USER_1 :: nat where "PERF_MILESTONE_USER_1 = 42"
definition PERF_MILESTONE_COUNT :: nat where "PERF_MILESTONE_COUNT = 47"

text \<open>The table \<^verbatim>\<open>milestone_names\<close>, in the order of the enumeration.\<close>

definition milestone_names :: "string list" where
  "milestone_names =
    [''PROGRAM_START'', ''PROGRAM_END'', ''OPTION_PARSING'', ''INITIALIZATION'', ''CLEANUP'',
     ''FASTA_LOAD_START'', ''FASTA_LOAD_END'', ''FASTA_PARSE'', ''TAXONOMY_LOAD'', ''OUTPUT_WRITE'',
     ''DISTANCE_MATRIX_START'', ''DISTANCE_MATRIX_END'', ''DISTANCE_CALCULATION'',
     ''DISTANCE_PTHREAD_SECTION'', ''DISTANCE_AVERAGE_CALC'',
     ''TREE_CONSTRUCTION_START'', ''TREE_CONSTRUCTION_END'', ''TREE_NODE_CREATION'',
     ''TREE_BRANCH_LENGTH_CALC'',
     ''CLUSTERING_START'', ''CLUSTERING_END'', ''CLUSTERING_ITERATION'', ''CLUSTER_ASSIGNMENT'',
     ''CLUSTER_CENTROID_UPDATE'', ''CLUSTER_CONVERGENCE_CHECK'', ''CLUSTER_INITIALIZATION'',
     ''ALIGNMENT_START'', ''ALIGNMENT_END'', ''KALIGN_EXECUTION'', ''WFA2_EXECUTION'',
     ''NEEDLEMAN_WUNSCH'', ''SEQUENCE_ALIGNMENT'', ''MSA_CONSTRUCTION'',
     ''OMP_PARALLEL_START'', ''OMP_PARALLEL_END'', ''OMP_THREAD_SPAWN'', ''OMP_THREAD_JOIN'',
     ''OMP_BARRIER'',
     ''MEMORY_ALLOC'', ''MEMORY_FREE'', ''MEMORY_REALLOC'', ''LARGE_ALLOCATION'',
     ''USER_1'', ''USER_2'', ''USER_3'', ''USER_4'', ''USER_5'']"

text \<open>An output stream (\<^verbatim>\<open>FILE *\<close>): the two standard streams, or a file opened by \<^verbatim>\<open>fopen\<close>.\<close>

datatype stream = Stdout | Stderr | File_stream nat

record timespec =
  tv_sec :: int
  tv_nsec :: int

record perf_timestamp_t =
  ts :: timespec
  cycles :: nat

record perf_memory_t =
  rss_kb :: nat
  virt_kb :: nat
  peak_rss_kb :: nat
  heap_allocated :: nat
  heap_freed :: nat
  allocation_count :: nat
  free_count :: nat

record perf_cpu_t =
  cpu_percent :: real
  user_time :: real
  system_time :: real
  context_switches :: nat
  cache_misses :: nat

text \<open>
  \<^verbatim>\<open>perf_thread_data_t\<close>. Its fields carry the prefix \<open>td_\<close>, because \<^verbatim>\<open>memory\<close>, \<^verbatim>\<open>cpu\<close> and
  \<^verbatim>\<open>label\<close> are fields of \<^verbatim>\<open>perf_metrics_t\<close> too.
\<close>

record perf_thread_data_t =
  td_thread_id :: int
  td_omp_thread_num :: int
  td_start_time :: perf_timestamp_t
  td_end_time :: perf_timestamp_t
  td_memory :: perf_memory_t
  td_cpu :: perf_cpu_t
  td_operations_count :: nat
  td_label :: string

text \<open>\<^verbatim>\<open>perf_metrics_t\<close>; the field \<^verbatim>\<open>context\<close> is named \<open>context_str\<close>.\<close>

record perf_metrics_t =
  milestone :: nat
  timestamp :: perf_timestamp_t
  duration_ms :: real
  memory :: perf_memory_t
  cpu :: perf_cpu_t
  thread_count :: int
  iteration_number :: int
  convergence_metric :: real
  label :: string
  context_str :: string

record perf_config_t =
  enabled :: bool
  granularity :: perf_granularity_t
  log_level :: perf_log_level_t
  output_format :: perf_output_format_t
  output_file :: "stream option"
  output_filename :: string
  flush_immediately :: bool
  track_memory :: bool
  track_cpu :: bool
  track_threads :: bool
  sampling_interval_us :: nat

record perf_context_t =
  config :: perf_config_t
  log_entries :: "perf_metrics_t list"
  log_count :: nat
  log_capacity :: nat
  thread_data :: "perf_thread_data_t list"
  program_start_time :: perf_timestamp_t
  allocation_counter :: nat
  bytes_allocated :: nat
  bytes_freed :: nat
  active_threads :: int
  milestone_starts :: "perf_timestamp_t list"
  milestone_active :: "bool list"
  total_runtime_ms :: real
  peak_memory_kb :: nat
  max_threads_used :: int

text \<open>\<^verbatim>\<open>perf_statistics_t\<close>; \<^verbatim>\<open>min\<close> and \<^verbatim>\<open>max\<close> are named \<open>min_stat\<close> and \<open>max_stat\<close>.\<close>

record perf_statistics_t =
  min_stat :: real
  max_stat :: real
  mean :: real
  std_dev :: real
  median :: real
  percentile_95 :: real
  percentile_99 :: real
  sample_count :: nat

text \<open>
  The state of the program: the global \<^verbatim>\<open>g_perf_context\<close>, the thread-local
  \<^verbatim>\<open>tls_thread_id\<close> of every thread (threads are numbered; the initial value is \<open>-1\<close>), and
  the text written so far to every output stream.
\<close>

record perf_world =
  g_perf_context :: perf_context_t
  tls_thread_id :: "nat \<Rightarrow> int"
  streams :: "stream \<Rightarrow> string"

text \<open>
  What one call reads from outside the program: the clock (\<^verbatim>\<open>clock_gettime\<close>), the three
  values parsed from \<^verbatim>\<open>/proc/self/status\<close> (\<open>None\<close> when the file cannot be opened), the
  snapshot that \<^verbatim>\<open>perf_get_cpu_usage\<close> computes from \<^verbatim>\<open>getrusage\<close> and its static
  variables, the value of \<^verbatim>\<open>omp_get_thread_num\<close> (\<open>-1\<close> is stored without OpenMP), the
  result of \<^verbatim>\<open>fopen\<close>, whether \<^verbatim>\<open>malloc\<close> succeeds, and the calling thread.
\<close>

record perf_env =
  clock_now :: timespec
  proc_status :: "(nat \<times> nat \<times> nat) option"
  cpu_probe :: perf_cpu_t
  omp_thread_num_now :: int
  fopen_result :: "stream option"
  malloc_ok :: bool
  self :: nat

text \<open>
  Undefined behaviour that a successful initialisation does not exclude: an index into
  the array \<^verbatim>\<open>thread_data[PERF_MAX_THREADS]\<close> outside its bounds.
\<close>

datatype perf_fault = Thread_slot_out_of_bounds int

section \<open>Formatting of the C library\<close>

text \<open>
  \<^verbatim>\<open>strncpy(dst, src, PERF_MAX_LABEL_LEN - 1)\<close> followed by the terminator at the last
  byte, and \<^verbatim>\<open>snprintf(dst, PERF_MAX_LABEL_LEN, ...)\<close>, both leave the first 63 characters.
\<close>

definition bounded_label :: "string \<Rightarrow> string" where
  "bounded_label s = take (PERF_MAX_LABEL_LEN - 1) s"

definition digit_char :: "nat \<Rightarrow> char" where
  "digit_char d = ''0123456789'' ! d"

fun show_nat :: "nat \<Rightarrow> string" where
  "show_nat n = (if n < 10 then [digit_char n] else show_nat (n div 10) @ [digit_char (n mod 10)])"

declare show_nat.simps [simp del]

text \<open>\<^verbatim>\<open>%d\<close> and \<^verbatim>\<open>%ld\<close>.\<close>

definition printf_d :: "int \<Rightarrow> string" where
  "printf_d i = (if i < 0 then CHR ''-'' # show_nat (nat (- i)) else show_nat (nat i))"

definition pad_zero :: "nat \<Rightarrow> string \<Rightarrow> string" where
  "pad_zero w s = replicate (w - length s) CHR ''0'' @ s"

text \<open>\<^verbatim>\<open>%09ld\<close>: the sign counts in the width.\<close>

definition printf_09ld :: "int \<Rightarrow> string" where
  "printf_09ld i =
    (if i < 0 then CHR ''-'' # pad_zero 8 (show_nat (nat (- i))) else pad_zero 9 (show_nat (nat i)))"

definition round_half_even :: "real \<Rightarrow> nat" where
  "round_half_even y =
    (let f = nat \<lfloor>y\<rfloor>; d = y - real f
     in if d < 1 / 2 then f else if 1 / 2 < d then f + 1 else if even f then f else f + 1)"

text \<open>\<^verbatim>\<open>%.pf\<close> of a finite value: fixed notation with \<open>p\<close> decimals.\<close>

definition printf_f :: "nat \<Rightarrow> real \<Rightarrow> string" where
  "printf_f p x =
    (let r = round_half_even (\<bar>x\<bar> * 10 ^ p)
     in (if x < 0 then ''-'' else []) @ show_nat (r div 10 ^ p) @
        (if p = 0 then [] else CHR ''.'' # pad_zero p (show_nat (r mod 10 ^ p))))"

section \<open>The operations of performance.c\<close>

text \<open>A zeroed structure, as \<^verbatim>\<open>memset(p, 0, sizeof ...)\<close> leaves it.\<close>

definition zero_timestamp :: perf_timestamp_t where
  "zero_timestamp = \<lparr>ts = \<lparr>tv_sec = 0, tv_nsec = 0\<rparr>, cycles = 0\<rparr>"

definition zero_memory :: perf_memory_t where
  "zero_memory = \<lparr>rss_kb = 0, virt_kb = 0, peak_rss_kb = 0, heap_allocated = 0, heap_freed = 0,
     allocation_count = 0, free_count = 0\<rparr>"

definition zero_cpu :: perf_cpu_t where
  "zero_cpu = \<lparr>cpu_percent = 0, user_time = 0, system_time = 0, context_switches = 0,
     cache_misses = 0\<rparr>"

definition zero_thread_data :: perf_thread_data_t where
  "zero_thread_data = \<lparr>td_thread_id = 0, td_omp_thread_num = 0, td_start_time = zero_timestamp,
     td_end_time = zero_timestamp, td_memory = zero_memory, td_cpu = zero_cpu,
     td_operations_count = 0, td_label = []\<rparr>"

definition zero_config :: perf_config_t where
  "zero_config = \<lparr>enabled = False, granularity = PERF_GRANULARITY_COARSE,
     log_level = PERF_LOG_ERROR, output_format = PERF_FORMAT_HUMAN, output_file = None,
     output_filename = [], flush_immediately = False, track_memory = False,
     track_cpu = False, track_threads = False, sampling_interval_us = 0\<rparr>"

definition zero_context :: perf_context_t where
  "zero_context = \<lparr>config = zero_config, log_entries = [], log_count = 0, log_capacity = 0,
     thread_data = replicate PERF_MAX_THREADS zero_thread_data,
     program_start_time = zero_timestamp, allocation_counter = 0, bytes_allocated = 0,
     bytes_freed = 0, active_threads = 0,
     milestone_starts = replicate PERF_MILESTONE_COUNT zero_timestamp,
     milestone_active = replicate PERF_MILESTONE_COUNT False,
     total_runtime_ms = 0, peak_memory_kb = 0, max_threads_used = 0\<rparr>"

definition zero_statistics :: perf_statistics_t where
  "zero_statistics = \<lparr>min_stat = 0, max_stat = 0, mean = 0, std_dev = 0, median = 0,
     percentile_95 = 0, percentile_99 = 0, sample_count = 0\<rparr>"

subsection \<open>Timing\<close>

definition perf_get_timestamp :: "perf_env \<Rightarrow> perf_timestamp_t" where
  "perf_get_timestamp env = \<lparr>ts = clock_now env, cycles = 0\<rparr>"

definition perf_timestamp_diff_ms :: "perf_timestamp_t \<Rightarrow> perf_timestamp_t \<Rightarrow> real" where
  "perf_timestamp_diff_ms start end_ts =
    (let start_ms = real_of_int (tv_sec (ts start)) * 1000 + real_of_int (tv_nsec (ts start)) / 1000000;
         end_ms = real_of_int (tv_sec (ts end_ts)) * 1000 + real_of_int (tv_nsec (ts end_ts)) / 1000000
     in end_ms - start_ms)"

subsection \<open>Probes\<close>

text \<open>
  \<^verbatim>\<open>perf_get_memory_usage\<close> on Linux: the structure is zeroed, \<open>-1\<close> is returned when
  \<^verbatim>\<open>/proc/self/status\<close> cannot be opened, otherwise the parsed values and the tracked
  allocation counters are stored. The result is the return value and the structure.
\<close>

definition perf_get_memory_usage :: "perf_env \<Rightarrow> perf_context_t \<Rightarrow> int \<times> perf_memory_t" where
  "perf_get_memory_usage env g =
    (case proc_status env of
       None \<Rightarrow> (- 1, zero_memory)
     | Some (rss, virt, peak) \<Rightarrow>
         (0, zero_memory\<lparr>rss_kb := rss, virt_kb := virt, peak_rss_kb := peak,
               heap_allocated := bytes_allocated g, heap_freed := bytes_freed g,
               allocation_count := allocation_counter g\<rparr>))"

definition perf_get_cpu_usage :: "perf_env \<Rightarrow> int \<times> perf_cpu_t" where
  "perf_get_cpu_usage env = (0, cpu_probe env)"

subsection \<open>Initialisation and configuration\<close>

text \<open>
  \<^verbatim>\<open>perf_init_with_config\<close>. The memory that \<^verbatim>\<open>malloc\<close> returns is not initialised:
  \<open>heap\<close> gives the content of each of its \<^verbatim>\<open>PERF_MAX_LOG_ENTRIES\<close> slots. When the
  allocation fails the pointer \<^verbatim>\<open>log_entries\<close> is \<^verbatim>\<open>NULL\<close>: no slot exists.
\<close>

definition perf_init_with_config ::
  "perf_env \<Rightarrow> (nat \<Rightarrow> perf_metrics_t) \<Rightarrow> perf_config_t option \<Rightarrow> perf_world \<Rightarrow> int \<times> perf_world" where
  "perf_init_with_config env heap cfg w =
    (case cfg of
       None \<Rightarrow> (- 1, w)
     | Some c \<Rightarrow>
         (let g0 = zero_context\<lparr>config := c, log_capacity := PERF_MAX_LOG_ENTRIES\<rparr>
          in if \<not> malloc_ok env then (- 1, w\<lparr>g_perf_context := g0\<rparr>)
             else
               (let g1 = g0\<lparr>log_entries := map heap [0..<PERF_MAX_LOG_ENTRIES],
                            allocation_counter := 0, bytes_allocated := 0, bytes_freed := 0,
                            active_threads := 0\<rparr>;
                    g2 = g1\<lparr>program_start_time := perf_get_timestamp env\<rparr>;
                    g3 = g2\<lparr>milestone_active := replicate PERF_MILESTONE_COUNT False\<rparr>
                in (0, w\<lparr>g_perf_context := g3\<rparr>))))"

definition default_config :: perf_config_t where
  "default_config = \<lparr>enabled = True, granularity = PERF_GRANULARITY_MEDIUM,
     log_level = PERF_LOG_INFO, output_format = PERF_FORMAT_HUMAN, output_file = Some Stderr,
     output_filename = ''performance.log'', flush_immediately = False, track_memory = True,
     track_cpu = True, track_threads = True, sampling_interval_us = 100000\<rparr>"

definition perf_init :: "perf_env \<Rightarrow> (nat \<Rightarrow> perf_metrics_t) \<Rightarrow> perf_world \<Rightarrow> int \<times> perf_world" where
  "perf_init env heap w = perf_init_with_config env heap (Some default_config) w"

definition perf_reset :: "perf_env \<Rightarrow> perf_world \<Rightarrow> perf_world" where
  "perf_reset env w =
    (let g = g_perf_context w
     in if \<not> enabled (config g) then w
        else w\<lparr>g_perf_context := g\<lparr>log_count := 0, total_runtime_ms := 0, peak_memory_kb := 0,
                 max_threads_used := 0, program_start_time := perf_get_timestamp env,
                 milestone_active := replicate PERF_MILESTONE_COUNT False\<rparr>\<rparr>)"

definition perf_set_enabled :: "bool \<Rightarrow> perf_world \<Rightarrow> perf_world" where
  "perf_set_enabled en w =
    w\<lparr>g_perf_context := (g_perf_context w)\<lparr>config := (config (g_perf_context w))\<lparr>enabled := en\<rparr>\<rparr>\<rparr>"

subsection \<open>Thread management\<close>

definition perf_get_thread_count :: "perf_context_t \<Rightarrow> int" where
  "perf_get_thread_count g = active_threads g"

text \<open>
  \<^verbatim>\<open>perf_register_thread\<close>. The counter is incremented and the thread-local id is set
  before \<^verbatim>\<open>thread_data[thread_id]\<close> is written; no comparison with
  \<^verbatim>\<open>PERF_MAX_THREADS\<close> is made, so an index outside the array is the fault
  \<open>Thread_slot_out_of_bounds\<close>. Otherwise the result is the returned id and the new state.
\<close>

definition perf_register_thread :: "perf_env \<Rightarrow> perf_world \<Rightarrow> perf_fault + (int \<times> perf_world)" where
  "perf_register_thread env w =
    (let g = g_perf_context w
     in if \<not> enabled (config g) \<or> \<not> track_threads (config g) then Inr (- 1, w)
        else
          (let thread_count_v = active_threads g;
               g1 = g\<lparr>active_threads := active_threads g + 1\<rparr>;
               thread_id = thread_count_v;
               tls1 = (tls_thread_id w)(self env := thread_id)
           in if thread_id < 0 \<or> int PERF_MAX_THREADS \<le> thread_id
              then Inl (Thread_slot_out_of_bounds thread_id)
              else
                (let slot = thread_data g1 ! nat thread_id;
                     slot1 = slot\<lparr>td_omp_thread_num := omp_thread_num_now env\<rparr>;
                     slot2 = slot1\<lparr>td_thread_id := thread_id\<rparr>;
                     slot3 = slot2\<lparr>td_start_time := perf_get_timestamp env\<rparr>;
                     g2 = g1\<lparr>thread_data := (thread_data g1)[nat thread_id := slot3]\<rparr>;
                     g3 = (if max_threads_used g2 < thread_count_v + 1
                           then g2\<lparr>max_threads_used := thread_count_v + 1\<rparr> else g2)
                 in Inr (thread_id, w\<lparr>g_perf_context := g3, tls_thread_id := tls1\<rparr>))))"

definition perf_unregister_thread :: "perf_env \<Rightarrow> perf_world \<Rightarrow> perf_world" where
  "perf_unregister_thread env w =
    (let g = g_perf_context w
     in if \<not> enabled (config g) \<or> \<not> track_threads (config g) then w
        else
          (let thread_id = tls_thread_id w (self env);
               g1 = (if 0 \<le> thread_id \<and> thread_id < int PERF_MAX_THREADS
                     then g\<lparr>thread_data := (thread_data g)[nat thread_id :=
                            (thread_data g ! nat thread_id)\<lparr>td_end_time := perf_get_timestamp env\<rparr>]\<rparr>
                     else g)
           in w\<lparr>g_perf_context := g1\<lparr>active_threads := active_threads g1 - 1\<rparr>\<rparr>))"

definition perf_get_thread_data :: "int \<Rightarrow> perf_context_t \<Rightarrow> perf_thread_data_t option" where
  "perf_get_thread_data thread_id g =
    (if thread_id < 0 \<or> int PERF_MAX_THREADS \<le> thread_id then None
     else Some (thread_data g ! nat thread_id))"

subsection \<open>Output\<close>

definition perf_milestone_name :: "nat \<Rightarrow> string" where
  "perf_milestone_name m = (if m < PERF_MILESTONE_COUNT then milestone_names ! m else ''UNKNOWN'')"

text \<open>The text of one \<^verbatim>\<open>fprintf\<close> of \<^verbatim>\<open>perf_flush_logs\<close> in the CSV and the human format.\<close>

definition csv_row :: "perf_metrics_t \<Rightarrow> string" where
  "csv_row entry =
    printf_d (tv_sec (ts (timestamp entry))) @ ''.'' @ printf_09ld (tv_nsec (ts (timestamp entry))) @ '','' @
    perf_milestone_name (milestone entry) @ '','' @
    printf_f 3 (duration_ms entry) @ '','' @
    show_nat (rss_kb (memory entry)) @ '','' @ show_nat (virt_kb (memory entry)) @ '','' @
    printf_d (thread_count entry) @ '','' @ printf_d (iteration_number entry) @ '','' @
    printf_f 6 (convergence_metric entry) @ '','' @ printf_f 2 (cpu_percent (cpu entry)) @ '','' @
    label entry @ '','' @ context_str entry @ [CHR 0x0A]"

definition human_row :: "perf_metrics_t \<Rightarrow> string" where
  "human_row entry =
    ''['' @ printf_d (tv_sec (ts (timestamp entry))) @ ''.'' @
    printf_09ld (tv_nsec (ts (timestamp entry))) @ ''] '' @
    perf_milestone_name (milestone entry) @ '': '' @
    printf_f 3 (duration_ms entry) @ '' ms, RSS: '' @
    show_nat (rss_kb (memory entry)) @ '' KB, Threads: '' @
    printf_d (thread_count entry) @ '', '' @ label entry @ [CHR 0x0A]"

definition fprintf :: "stream \<Rightarrow> string \<Rightarrow> (stream \<Rightarrow> string) \<Rightarrow> (stream \<Rightarrow> string)" where
  "fprintf f s fs = fs(f := fs f @ s)"

text \<open>
  \<^verbatim>\<open>perf_flush_logs\<close>: the loop over the first \<^verbatim>\<open>log_count\<close> entries is a fold; the JSON
  case writes nothing, every other format but CSV writes the human line.
\<close>

definition flush_entry ::
  "perf_output_format_t \<Rightarrow> stream \<Rightarrow> perf_metrics_t \<Rightarrow> (stream \<Rightarrow> string) \<Rightarrow> (stream \<Rightarrow> string)" where
  "flush_entry fmt f entry fs =
    (case fmt of
       PERF_FORMAT_CSV \<Rightarrow> fprintf f (csv_row entry) fs
     | PERF_FORMAT_JSON \<Rightarrow> fs
     | _ \<Rightarrow> fprintf f (human_row entry) fs)"

definition perf_flush_logs :: "perf_world \<Rightarrow> perf_world" where
  "perf_flush_logs w =
    (let g = g_perf_context w
     in if \<not> enabled (config g) then w
        else case output_file (config g) of
               None \<Rightarrow> w
             | Some f \<Rightarrow>
                 w\<lparr>streams := fold (flush_entry (output_format (config g)) f)
                                 (take (log_count g) (log_entries g)) (streams w)\<rparr>)"

definition csv_header :: string where
  "csv_header = ''timestamp,milestone,duration_ms,memory_rss_kb,memory_virt_kb,thread_count,'' @
     ''iteration,convergence_metric,cpu_percent,label,context'' @ [CHR 0x0A]"

text \<open>
  \<^verbatim>\<open>perf_export_csv\<close>: \<^verbatim>\<open>fopen(filename, "w")\<close> gives an empty file or fails;
  \<^verbatim>\<open>fclose\<close> leaves the text of the file as it is.
\<close>

definition perf_export_csv :: "perf_env \<Rightarrow> string option \<Rightarrow> perf_world \<Rightarrow> perf_world" where
  "perf_export_csv env filename w =
    (case filename of
       None \<Rightarrow> w
     | Some name \<Rightarrow>
         (let g = g_perf_context w;
              old_output = output_file (config g);
              old_format = output_format (config g)
          in case fopen_result env of
               None \<Rightarrow> w\<lparr>g_perf_context := g\<lparr>config := (config g)\<lparr>output_file := old_output\<rparr>\<rparr>\<rparr>
             | Some f \<Rightarrow>
                 (let w1 = w\<lparr>g_perf_context :=
                              g\<lparr>config := (config g)\<lparr>output_file := Some f,
                                                      output_format := PERF_FORMAT_CSV\<rparr>\<rparr>,
                            streams := (streams w)(f := [])\<rparr>;
                      w2 = w1\<lparr>streams := fprintf f csv_header (streams w1)\<rparr>;
                      w3 = perf_flush_logs w2;
                      g3 = g_perf_context w3
                  in w3\<lparr>g_perf_context :=
                          g3\<lparr>config := (config g3)\<lparr>output_file := old_output,
                                                    output_format := old_format\<rparr>\<rparr>\<rparr>)))"

subsection \<open>Milestones and events\<close>

text \<open>
  The recording operations index \<^verbatim>\<open>log_entries\<close> below \<^verbatim>\<open>log_capacity\<close> and the two
  milestone arrays below \<^verbatim>\<open>PERF_MILESTONE_COUNT\<close>; after a successful initialisation
  these indices are inside the arrays (\<open>well_formed\<close> below).
\<close>

definition perf_start_milestone_labeled ::
  "perf_env \<Rightarrow> nat \<Rightarrow> string option \<Rightarrow> perf_world \<Rightarrow> perf_world" where
  "perf_start_milestone_labeled env m lbl w =
    (let g = g_perf_context w
     in if \<not> enabled (config g) \<or> PERF_MILESTONE_COUNT \<le> m then w
        else w\<lparr>g_perf_context :=
                 g\<lparr>milestone_starts := (milestone_starts g)[m := perf_get_timestamp env],
                   milestone_active := (milestone_active g)[m := True]\<rparr>\<rparr>)"

definition perf_end_milestone_labeled ::
  "perf_env \<Rightarrow> nat \<Rightarrow> string option \<Rightarrow> perf_world \<Rightarrow> perf_world" where
  "perf_end_milestone_labeled env m lbl w =
    (let g = g_perf_context w
     in if \<not> enabled (config g) \<or> PERF_MILESTONE_COUNT \<le> m then w
        else if \<not> milestone_active g ! m then w
        else
          (let end_time = perf_get_timestamp env;
               duration = perf_timestamp_diff_ms (milestone_starts g ! m) end_time;
               w1 = (if log_count g < log_capacity g
                     then
                       (let entry = log_entries g ! log_count g;
                            entry1 = entry\<lparr>milestone := m, timestamp := end_time,
                                       duration_ms := duration,
                                       thread_count := perf_get_thread_count g,
                                       iteration_number := 0, convergence_metric := 0\<rparr>;
                            entry2 = entry1\<lparr>label := (case lbl of Some l \<Rightarrow> bounded_label l | None \<Rightarrow> [])\<rparr>;
                            entry3 = (if track_memory (config g)
                                      then entry2\<lparr>memory := snd (perf_get_memory_usage env g)\<rparr>
                                      else entry2);
                            entry4 = (if track_cpu (config g)
                                      then entry3\<lparr>cpu := snd (perf_get_cpu_usage env)\<rparr>
                                      else entry3);
                            w2 = w\<lparr>g_perf_context :=
                                     g\<lparr>log_entries := (log_entries g)[log_count g := entry4],
                                       log_count := log_count g + 1\<rparr>\<rparr>
                        in if flush_immediately (config g) then perf_flush_logs w2 else w2)
                     else w);
               g1 = g_perf_context w1
           in w1\<lparr>g_perf_context := g1\<lparr>milestone_active := (milestone_active g1)[m := False]\<rparr>\<rparr>))"

definition perf_start_milestone :: "perf_env \<Rightarrow> nat \<Rightarrow> perf_world \<Rightarrow> perf_world" where
  "perf_start_milestone env m w = perf_start_milestone_labeled env m (Some []) w"

definition perf_end_milestone :: "perf_env \<Rightarrow> nat \<Rightarrow> perf_world \<Rightarrow> perf_world" where
  "perf_end_milestone env m w = perf_end_milestone_labeled env m (Some []) w"

definition perf_log_event_with_context ::
  "perf_env \<Rightarrow> string option \<Rightarrow> real \<Rightarrow> string option \<Rightarrow> perf_world \<Rightarrow> perf_world" where
  "perf_log_event_with_context env lbl v ctxt w =
    (let g = g_perf_context w
     in case lbl of
          None \<Rightarrow> w
        | Some l \<Rightarrow>
            if \<not> enabled (config g) then w
            else if log_count g < log_capacity g
            then
              (let entry = log_entries g ! log_count g;
                   entry1 = entry\<lparr>milestone := PERF_MILESTONE_USER_1,
                              timestamp := perf_get_timestamp env,
                              duration_ms := v,
                              thread_count := perf_get_thread_count g\<rparr>;
                   entry2 = entry1\<lparr>label := bounded_label l\<rparr>;
                   entry3 = entry2\<lparr>context_str := (case ctxt of Some c \<Rightarrow> bounded_label c | None \<Rightarrow> [])\<rparr>
               in w\<lparr>g_perf_context :=
                      g\<lparr>log_entries := (log_entries g)[log_count g := entry3],
                        log_count := log_count g + 1\<rparr>\<rparr>)
            else w)"

definition perf_log_event :: "perf_env \<Rightarrow> string option \<Rightarrow> real \<Rightarrow> perf_world \<Rightarrow> perf_world" where
  "perf_log_event env lbl v w = perf_log_event_with_context env lbl v (Some []) w"

definition perf_log_iteration :: "perf_env \<Rightarrow> int \<Rightarrow> real \<Rightarrow> perf_world \<Rightarrow> perf_world" where
  "perf_log_iteration env iteration metric w =
    (let g = g_perf_context w
     in if \<not> enabled (config g) then w
        else if log_count g < log_capacity g
        then
          (let entry = log_entries g ! log_count g;
               entry1 = entry\<lparr>milestone := PERF_MILESTONE_CLUSTERING_ITERATION,
                          timestamp := perf_get_timestamp env,
                          duration_ms := 0,
                          thread_count := perf_get_thread_count g,
                          iteration_number := iteration,
                          convergence_metric := metric\<rparr>;
               entry2 = entry1\<lparr>label := bounded_label (''iteration_'' @ printf_d iteration)\<rparr>;
               entry3 = entry2\<lparr>context_str := bounded_label (''convergence='' @ printf_f 6 metric)\<rparr>
           in w\<lparr>g_perf_context :=
                  g\<lparr>log_entries := (log_entries g)[log_count g := entry3],
                    log_count := log_count g + 1\<rparr>\<rparr>)
        else w)"

definition perf_log_algorithm_step ::
  "perf_env \<Rightarrow> string option \<Rightarrow> string option \<Rightarrow> real \<Rightarrow> perf_world \<Rightarrow> perf_world" where
  "perf_log_algorithm_step env algorithm step metric w =
    (case (algorithm, step) of
       (Some a, Some s) \<Rightarrow>
         if \<not> enabled (config (g_perf_context w)) then w
         else
           (let lbl = bounded_label (a @ ''_'' @ s);
                ctxt = bounded_label (''metric='' @ printf_f 6 metric)
            in perf_log_event_with_context env (Some lbl) metric (Some ctxt) w)
     | _ \<Rightarrow> w)"

subsection \<open>Statistics\<close>

text \<open>
  \<^verbatim>\<open>perf_get_milestone_statistics\<close>. The argument \<open>stats\<close> is the structure the pointer
  refers to before the call (\<open>None\<close> for a \<^verbatim>\<open>NULL\<close> pointer); the result is the return
  value and the structure after the call.
\<close>

definition collect_samples :: "nat \<Rightarrow> perf_context_t \<Rightarrow> real list" where
  "collect_samples m g =
    map duration_ms (filter (\<lambda>e. milestone e = m) (take (log_count g) (log_entries g)))"

definition stats_loop_step :: "real \<Rightarrow> perf_statistics_t \<Rightarrow> perf_statistics_t" where
  "stats_loop_step x s =
    (let s1 = (if x < min_stat s then s\<lparr>min_stat := x\<rparr> else s);
         s2 = (if max_stat s1 < x then s1\<lparr>max_stat := x\<rparr> else s1)
     in s2\<lparr>mean := mean s2 + x\<rparr>)"

definition perf_get_milestone_statistics ::
  "perf_env \<Rightarrow> nat \<Rightarrow> perf_statistics_t option \<Rightarrow> perf_context_t \<Rightarrow> int \<times> perf_statistics_t option" where
  "perf_get_milestone_statistics env m stats g =
    (case stats of
       None \<Rightarrow> (- 1, None)
     | Some s0 \<Rightarrow>
         if PERF_MILESTONE_COUNT \<le> m then (- 1, Some s0)
         else if \<not> malloc_ok env then (- 1, Some zero_statistics)
         else
           (let samples = collect_samples m g;
                n = length samples
            in if n = 0 then (- 1, Some zero_statistics)
               else
                 (let s1 = zero_statistics\<lparr>sample_count := n, min_stat := samples ! 0,
                             max_stat := samples ! 0, mean := 0\<rparr>;
                      s2 = fold stats_loop_step samples s1;
                      s3 = s2\<lparr>mean := mean s2 / real n\<rparr>;
                      variance = fold (\<lambda>x v. v + (x - mean s3) * (x - mean s3)) samples 0;
                      s4 = s3\<lparr>std_dev := sqrt (variance / real n)\<rparr>
                  in (0, Some s4))))"

section \<open>Runs\<close>

text \<open>
  A run is a sequence of calls of the API after initialisation, each with what it reads
  from outside. The calls of a run are made one after another, by any threads: each call
  returns before the next one begins. Publish attempts that overlap in time are the subject
  of the section on overlapping publish attempts. A run stops at the first fault.
\<close>

datatype perf_call =
    Start_milestone nat "string option"
  | End_milestone nat "string option"
  | Log_event "string option" real "string option"
  | Log_iteration int real
  | Log_algorithm_step "string option" "string option" real
  | Register_thread
  | Unregister_thread
  | Reset
  | Set_enabled bool
  | Flush_logs
  | Export_csv "string option"

fun perf_step :: "perf_env \<Rightarrow> perf_call \<Rightarrow> perf_world \<Rightarrow> perf_fault + perf_world" where
  "perf_step env (Start_milestone m l) w = Inr (perf_start_milestone_labeled env m l w)"
| "perf_step env (End_milestone m l) w = Inr (perf_end_milestone_labeled env m l w)"
| "perf_step env (Log_event l v c) w = Inr (perf_log_event_with_context env l v c w)"
| "perf_step env (Log_iteration i x) w = Inr (perf_log_iteration env i x w)"
| "perf_step env (Log_algorithm_step a s x) w = Inr (perf_log_algorithm_step env a s x w)"
| "perf_step env Register_thread w =
     (case perf_register_thread env w of Inl e \<Rightarrow> Inl e | Inr (r, w') \<Rightarrow> Inr w')"
| "perf_step env Unregister_thread w = Inr (perf_unregister_thread env w)"
| "perf_step env Reset w = Inr (perf_reset env w)"
| "perf_step env (Set_enabled b) w = Inr (perf_set_enabled b w)"
| "perf_step env Flush_logs w = Inr (perf_flush_logs w)"
| "perf_step env (Export_csv f) w = Inr (perf_export_csv env f w)"

fun perf_run :: "(perf_env \<times> perf_call) list \<Rightarrow> perf_world \<Rightarrow> perf_fault + perf_world" where
  "perf_run [] w = Inr w"
| "perf_run ((env, c) # cs) w =
     (case perf_step env c w of Inl e \<Rightarrow> Inl e | Inr w' \<Rightarrow> perf_run cs w')"

text \<open>The arrays of the context have the sizes that a successful initialisation gives them.\<close>

definition well_formed :: "perf_context_t \<Rightarrow> bool" where
  "well_formed g \<longleftrightarrow>
     length (log_entries g) = log_capacity g \<and>
     length (thread_data g) = PERF_MAX_THREADS \<and>
     length (milestone_starts g) = PERF_MILESTONE_COUNT \<and>
     length (milestone_active g) = PERF_MILESTONE_COUNT"

text \<open>The number of newline characters of a text: its number of lines.\<close>

definition line_count :: "string \<Rightarrow> nat" where
  "line_count s = length (filter (\<lambda>c. c = CHR 0x0A) s)"

text \<open>The records that the buffer holds: the first \<^verbatim>\<open>log_count\<close> slots.\<close>

definition records :: "perf_context_t \<Rightarrow> perf_metrics_t list" where
  "records g = take (log_count g) (log_entries g)"

section \<open>A concrete start of the program\<close>

text \<open>
  The global context is zero-initialised (\<^verbatim>\<open>perf_context_t g_perf_context = {0}\<close>), no
  thread has an id yet, and nothing has been written.
\<close>

definition initial_world :: perf_world where
  "initial_world = \<lparr>g_perf_context = zero_context, tls_thread_id = (\<lambda>t. - 1), streams = (\<lambda>f. [])\<rparr>"

definition example_env :: perf_env where
  "example_env = \<lparr>clock_now = \<lparr>tv_sec = 100, tv_nsec = 500\<rparr>, proc_status = Some (1024, 2048, 1024),
     cpu_probe = zero_cpu, omp_thread_num_now = - 1, fopen_result = Some (File_stream 0),
     malloc_ok = True, self = 0\<rparr>"

text \<open>Some content of the memory that \<^verbatim>\<open>malloc\<close> hands out.\<close>

definition stale_entry :: perf_metrics_t where
  "stale_entry = \<lparr>milestone = 3, timestamp = zero_timestamp, duration_ms = 9, memory = zero_memory,
     cpu = zero_cpu, thread_count = 5, iteration_number = 7, convergence_metric = 1 / 2,
     label = ''old'', context_str = ''stale''\<rparr>"

definition example_heap :: "nat \<Rightarrow> perf_metrics_t" where
  "example_heap i = stale_entry"

text \<open>The state after \<^verbatim>\<open>perf_init()\<close>.\<close>

definition started_world :: perf_world where
  "started_world = snd (perf_init example_env example_heap initial_world)"

definition clock_at :: "int \<Rightarrow> perf_env" where
  "clock_at s = example_env\<lparr>clock_now := \<lparr>tv_sec = s, tv_nsec = 0\<rparr>\<rparr>"

text \<open>What a call made by thread \<open>t\<close> reads from outside.\<close>

definition thread_env :: "nat \<Rightarrow> perf_env" where
  "thread_env t = example_env\<lparr>self := t\<rparr>"

section \<open>Observations and invariants of runs\<close>

text \<open>The ids that the calls of \<^verbatim>\<open>perf_register_thread\<close> in a run return, in order.\<close>

fun thread_indices :: "(perf_env \<times> perf_call) list \<Rightarrow> perf_world \<Rightarrow> perf_fault + int list" where
  "thread_indices [] w = Inr []"
| "thread_indices ((env, Register_thread) # cs) w =
     (case perf_register_thread env w of
        Inl e \<Rightarrow> Inl e
      | Inr (r, w') \<Rightarrow> (case thread_indices cs w' of Inl e \<Rightarrow> Inl e | Inr rs \<Rightarrow> Inr (r # rs)))"
| "thread_indices ((env, c) # cs) w =
     (case perf_step env c w of Inl e \<Rightarrow> Inl e | Inr w' \<Rightarrow> thread_indices cs w')"

text \<open>
  The ids of a counter: a registration takes the value of the counter and increments
  it, an unregistration decrements it.
\<close>

fun counter_ids :: "int \<Rightarrow> perf_call list \<Rightarrow> int list" where
  "counter_ids n [] = []"
| "counter_ids n (Register_thread # cs) = n # counter_ids (n + 1) cs"
| "counter_ids n (Unregister_thread # cs) = counter_ids (n - 1) cs"
| "counter_ids n (c # cs) = counter_ids n cs"

definition threads_on :: "perf_world \<Rightarrow> bool" where
  "threads_on w \<longleftrightarrow> enabled (config (g_perf_context w)) \<and> track_threads (config (g_perf_context w))"

text \<open>
  The threads that hold a registration after a run of register and unregister calls, the
  one that registered last first. The result is \<open>None\<close> when a thread registers that is
  registered already, when \<^verbatim>\<open>PERF_MAX_THREADS\<close> threads are registered at a registration,
  when a thread unregisters that is not the registered thread that registered last, or
  when another call is made.
\<close>

fun registered :: "nat list \<Rightarrow> (perf_env \<times> perf_call) list \<Rightarrow> nat list option" where
  "registered live [] = Some live"
| "registered live ((env, Register_thread) # cs) =
     (if self env \<in> set live \<or> PERF_MAX_THREADS \<le> length live then None
      else registered (self env # live) cs)"
| "registered live ((env, Unregister_thread) # cs) =
     (case live of
        [] \<Rightarrow> None
      | t # rest \<Rightarrow> if t = self env then registered rest cs else None)"
| "registered live ((env, c) # cs) = None"

text \<open>The ids that the threads \<open>ths\<close> hold in their thread-local variable after a run.\<close>

definition held_ids :: "nat list \<Rightarrow> (perf_env \<times> perf_call) list \<Rightarrow> perf_world \<Rightarrow> perf_fault + int list" where
  "held_ids ths cs w =
    (case perf_run cs w of Inl e \<Rightarrow> Inl e | Inr w' \<Rightarrow> Inr (map (tls_thread_id w') ths))"

definition single_line :: "perf_metrics_t \<Rightarrow> bool" where
  "single_line e \<longleftrightarrow> CHR 0x0A \<notin> set (label e) \<and> CHR 0x0A \<notin> set (context_str e)"

text \<open>The buffer of a context is in order: the arrays have their sizes and the count is within
  the capacity.\<close>

definition buffer_ok :: "perf_context_t \<Rightarrow> bool" where
  "buffer_ok g \<longleftrightarrow> well_formed g \<and> log_count g \<le> log_capacity g"

text \<open>The records that the end of a milestone, an event and an iteration write.\<close>

definition end_entry :: "perf_env \<Rightarrow> nat \<Rightarrow> string option \<Rightarrow> perf_context_t \<Rightarrow> perf_metrics_t" where
  "end_entry env m lbl g =
    (let e2 = (log_entries g ! log_count g)
                \<lparr>milestone := m, timestamp := perf_get_timestamp env,
                 duration_ms := perf_timestamp_diff_ms (milestone_starts g ! m) (perf_get_timestamp env),
                 thread_count := perf_get_thread_count g, iteration_number := 0,
                 convergence_metric := 0,
                 label := (case lbl of Some l \<Rightarrow> bounded_label l | None \<Rightarrow> [])\<rparr>;
         e3 = (if track_memory (config g) then e2\<lparr>memory := snd (perf_get_memory_usage env g)\<rparr> else e2)
     in if track_cpu (config g) then e3\<lparr>cpu := snd (perf_get_cpu_usage env)\<rparr> else e3)"

definition event_entry :: "perf_env \<Rightarrow> string \<Rightarrow> real \<Rightarrow> string option \<Rightarrow> perf_context_t \<Rightarrow> perf_metrics_t" where
  "event_entry env l v c g =
    (log_entries g ! log_count g)
      \<lparr>milestone := PERF_MILESTONE_USER_1, timestamp := perf_get_timestamp env, duration_ms := v,
       thread_count := perf_get_thread_count g, label := bounded_label l,
       context_str := (case c of Some s \<Rightarrow> bounded_label s | None \<Rightarrow> [])\<rparr>"

definition iteration_entry :: "perf_env \<Rightarrow> int \<Rightarrow> real \<Rightarrow> perf_context_t \<Rightarrow> perf_metrics_t" where
  "iteration_entry env i x g =
    (log_entries g ! log_count g)
      \<lparr>milestone := PERF_MILESTONE_CLUSTERING_ITERATION, timestamp := perf_get_timestamp env,
       duration_ms := 0, thread_count := perf_get_thread_count g, iteration_number := i,
       convergence_metric := x, label := bounded_label (''iteration_'' @ printf_d i),
       context_str := bounded_label (''convergence='' @ printf_f 6 x)\<rparr>"

text \<open>Appending a record to the buffer.\<close>

definition publish :: "perf_metrics_t \<Rightarrow> perf_context_t \<Rightarrow> perf_context_t" where
  "publish e g = g\<lparr>log_entries := (log_entries g)[log_count g := e], log_count := log_count g + 1\<rparr>"

text \<open>
  The clock: a reading is valid when its nanoseconds are below one second, and the
  readings of a run do not decrease (a monotonic clock).
\<close>

definition timespec_valid :: "timespec \<Rightarrow> bool" where
  "timespec_valid t \<longleftrightarrow> 0 \<le> tv_nsec t \<and> tv_nsec t < 1000000000"

definition timespec_le :: "timespec \<Rightarrow> timespec \<Rightarrow> bool" where
  "timespec_le a b \<longleftrightarrow> tv_sec a < tv_sec b \<or> (tv_sec a = tv_sec b \<and> tv_nsec a \<le> tv_nsec b)"

fun clock_monotone :: "timespec \<Rightarrow> (perf_env \<times> perf_call) list \<Rightarrow> bool" where
  "clock_monotone t [] = True"
| "clock_monotone t ((env, c) # cs) =
     (timespec_valid (clock_now env) \<and> timespec_le t (clock_now env) \<and>
      clock_monotone (clock_now env) cs)"

text \<open>The value that a call stores in the duration field of a record is not negative.\<close>

fun value_nonneg :: "perf_call \<Rightarrow> bool" where
  "value_nonneg (Log_event l v c) = (0 \<le> v)"
| "value_nonneg (Log_algorithm_step a s x) = (0 \<le> x)"
| "value_nonneg c = True"

definition durations_nonneg :: "perf_context_t \<Rightarrow> bool" where
  "durations_nonneg g \<longleftrightarrow> (\<forall>e \<in> set (records g). 0 \<le> duration_ms e)"

definition starts_before :: "timespec \<Rightarrow> perf_context_t \<Rightarrow> bool" where
  "starts_before t g \<longleftrightarrow>
     (\<forall>k < PERF_MILESTONE_COUNT. milestone_active g ! k \<longrightarrow>
        timespec_valid (ts (milestone_starts g ! k)) \<and> timespec_le (ts (milestone_starts g ! k)) t)"

definition run_inv :: "timespec \<Rightarrow> perf_context_t \<Rightarrow> bool" where
  "run_inv t g \<longleftrightarrow> buffer_ok g \<and> durations_nonneg g \<and> starts_before t g"

section \<open>Overlapping publish attempts\<close>

text \<open>
  The publish path of \<^verbatim>\<open>perf_log_event_with_context\<close>, for a label that is not null, in
  the two steps between which the calls of other threads can take place: first the tests
  of \<^verbatim>\<open>config.enabled\<close> and of \<^verbatim>\<open>log_count < log_capacity\<close> with the address of the slot
  \<^verbatim>\<open>&log_entries[log_count]\<close>, then the writes to that slot followed by \<^verbatim>\<open>log_count++\<close>.
  The field \<^verbatim>\<open>log_count\<close> is a \<^verbatim>\<open>volatile size_t\<close>; the function takes no lock and uses
  no atomic operation on it.
\<close>

definition event_reserve :: "perf_world \<Rightarrow> nat option" where
  "event_reserve w =
    (let g = g_perf_context w
     in if \<not> enabled (config g) then None
        else if log_count g < log_capacity g then Some (log_count g) else None)"

definition event_commit ::
  "perf_env \<Rightarrow> string \<Rightarrow> real \<Rightarrow> string option \<Rightarrow> nat \<Rightarrow> perf_world \<Rightarrow> perf_world" where
  "event_commit env l v ctxt slot w =
    (let g = g_perf_context w;
         entry = log_entries g ! slot;
         entry1 = entry\<lparr>milestone := PERF_MILESTONE_USER_1,
                    timestamp := perf_get_timestamp env,
                    duration_ms := v,
                    thread_count := perf_get_thread_count g\<rparr>;
         entry2 = entry1\<lparr>label := bounded_label l\<rparr>;
         entry3 = entry2\<lparr>context_str := (case ctxt of Some c \<Rightarrow> bounded_label c | None \<Rightarrow> [])\<rparr>
     in w\<lparr>g_perf_context :=
            g\<lparr>log_entries := (log_entries g)[slot := entry3], log_count := log_count g + 1\<rparr>\<rparr>)"

text \<open>
  A schedule is the list of the threads in the order in which they take a step. Thread
  \<open>t\<close> makes the call \<open>calls t\<close> again and again; \<open>held t\<close> is the slot whose address the
  thread has taken in a call that it has not finished. A thread that stands twice in a row
  in the schedule makes one whole call.
\<close>

fun overlapped ::
  "(nat \<Rightarrow> perf_env \<times> string \<times> real \<times> string option) \<Rightarrow> nat list \<Rightarrow> (nat \<Rightarrow> nat option) \<Rightarrow>
     perf_world \<Rightarrow> perf_world" where
  "overlapped calls [] held w = w"
| "overlapped calls (t # sch) held w =
     (case held t of
        None \<Rightarrow> overlapped calls sch (held(t := event_reserve w)) w
      | Some slot \<Rightarrow>
          (case calls t of (env, l, v, ctxt) \<Rightarrow>
             overlapped calls sch (held(t := None)) (event_commit env l v ctxt slot w)))"

text \<open>No thread is inside a call.\<close>

definition idle :: "nat \<Rightarrow> nat option" where
  "idle t = None"

text \<open>Every thread calls \<^verbatim>\<open>perf_log_event_with_context("d", 1.0, NULL)\<close>.\<close>

definition example_calls :: "nat \<Rightarrow> perf_env \<times> string \<times> real \<times> string option" where
  "example_calls t = (thread_env t, ''d'', 1, None)"

section \<open>Basic facts about the operations\<close>

lemma g_flush [simp]: "g_perf_context (perf_flush_logs w) = g_perf_context w"
  by (simp add: perf_flush_logs_def Let_def split: option.splits)

lemma tls_flush [simp]: "tls_thread_id (perf_flush_logs w) = tls_thread_id w"
  by (simp add: perf_flush_logs_def Let_def split: option.splits)

lemma g_export [simp]: "g_perf_context (perf_export_csv env f w) = g_perf_context w"
  by (simp add: perf_export_csv_def Let_def split: option.splits)

subsection \<open>The state after initialisation\<close>

lemma started_g:
  "g_perf_context started_world =
     zero_context\<lparr>config := default_config, log_capacity := PERF_MAX_LOG_ENTRIES,
       log_entries := map example_heap [0..<PERF_MAX_LOG_ENTRIES],
       program_start_time := perf_get_timestamp example_env\<rparr>"
  by (simp add: started_world_def perf_init_def perf_init_with_config_def Let_def example_env_def
      initial_world_def zero_context_def)

lemma started_fields [simp]:
  "enabled (config (g_perf_context started_world))"
  "track_threads (config (g_perf_context started_world))"
  "\<not> flush_immediately (config (g_perf_context started_world))"
  "output_format (config (g_perf_context started_world)) = PERF_FORMAT_HUMAN"
  "output_file (config (g_perf_context started_world)) = Some Stderr"
  "log_count (g_perf_context started_world) = 0"
  "log_capacity (g_perf_context started_world) = PERF_MAX_LOG_ENTRIES"
  "length (log_entries (g_perf_context started_world)) = PERF_MAX_LOG_ENTRIES"
  "active_threads (g_perf_context started_world) = 0"
  "max_threads_used (g_perf_context started_world) = 0"
  "length (thread_data (g_perf_context started_world)) = PERF_MAX_THREADS"
  "milestone_active (g_perf_context started_world) = replicate PERF_MILESTONE_COUNT False"
  "length (milestone_starts (g_perf_context started_world)) = PERF_MILESTONE_COUNT"
  "i < PERF_MAX_LOG_ENTRIES \<Longrightarrow> log_entries (g_perf_context started_world) ! i = stale_entry"
  by (simp_all add: started_g zero_context_def default_config_def example_heap_def)

lemma started_streams [simp]: "streams started_world = (\<lambda>f. [])"
  by (simp add: started_world_def perf_init_def perf_init_with_config_def Let_def example_env_def
      initial_world_def)

lemma started_tls [simp]: "tls_thread_id started_world = (\<lambda>t. - 1)"
  by (simp add: started_world_def perf_init_def perf_init_with_config_def Let_def example_env_def
      initial_world_def)

lemma started_well_formed [simp]: "well_formed (g_perf_context started_world)"
  by (simp add: well_formed_def)

subsection \<open>Milestones\<close>

lemma end_inactive:
  "PERF_MILESTONE_COUNT \<le> m \<or> \<not> milestone_active (g_perf_context w) ! m \<Longrightarrow>
   perf_end_milestone_labeled env m l w = w"
  by (auto simp add: perf_end_milestone_labeled_def Let_def)

lemma start_start:
  "perf_start_milestone_labeled env2 m l2 (perf_start_milestone_labeled env1 m l1 w) =
   perf_start_milestone_labeled env2 m l2 w"
  by (simp add: perf_start_milestone_labeled_def Let_def)

lemma start_fields:
  assumes "enabled (config (g_perf_context w))" "m < PERF_MILESTONE_COUNT"
    "well_formed (g_perf_context w)"
  shows "milestone_starts (g_perf_context (perf_start_milestone_labeled env m l w)) ! m
           = perf_get_timestamp env"
    and "milestone_active (g_perf_context (perf_start_milestone_labeled env m l w)) ! m"
  using assms by (simp_all add: perf_start_milestone_labeled_def Let_def well_formed_def)

lemma start_frame:
  "log_count (g_perf_context (perf_start_milestone_labeled env m l w)) = log_count (g_perf_context w)"
  "log_capacity (g_perf_context (perf_start_milestone_labeled env m l w)) = log_capacity (g_perf_context w)"
  "log_entries (g_perf_context (perf_start_milestone_labeled env m l w)) = log_entries (g_perf_context w)"
  "config (g_perf_context (perf_start_milestone_labeled env m l w)) = config (g_perf_context w)"
  "active_threads (g_perf_context (perf_start_milestone_labeled env m l w)) = active_threads (g_perf_context w)"
  by (simp_all add: perf_start_milestone_labeled_def Let_def)

lemma end_active_record:
  assumes "enabled (config (g_perf_context w))" "m < PERF_MILESTONE_COUNT"
    "milestone_active (g_perf_context w) ! m"
    "log_count (g_perf_context w) < log_capacity (g_perf_context w)"
    "length (log_entries (g_perf_context w)) = log_capacity (g_perf_context w)"
  shows "log_count (g_perf_context (perf_end_milestone_labeled env m l w))
           = log_count (g_perf_context w) + 1"
    and "duration_ms (log_entries (g_perf_context (perf_end_milestone_labeled env m l w))
           ! log_count (g_perf_context w))
           = perf_timestamp_diff_ms (milestone_starts (g_perf_context w) ! m) (perf_get_timestamp env)"
    and "milestone (log_entries (g_perf_context (perf_end_milestone_labeled env m l w))
           ! log_count (g_perf_context w)) = m"
    and "iteration_number (log_entries (g_perf_context (perf_end_milestone_labeled env m l w))
           ! log_count (g_perf_context w)) = 0"
    and "convergence_metric (log_entries (g_perf_context (perf_end_milestone_labeled env m l w))
           ! log_count (g_perf_context w)) = 0"
  using assms by (simp_all add: perf_end_milestone_labeled_def Let_def)

subsection \<open>Statistics\<close>

lemma collect_samples_empty:
  "collect_samples m g = [] \<longleftrightarrow> \<not> (\<exists>e \<in> set (records g). milestone e = m)"
  by (auto simp add: collect_samples_def records_def filter_empty_conv)

lemma fold_stats_sample_count:
  "sample_count (fold stats_loop_step xs s) = sample_count s"
  by (induction xs arbitrary: s) (simp_all add: stats_loop_step_def Let_def)

lemma take_one_update:
  "0 < length xs \<Longrightarrow> take (Suc 0) (xs[0 := x]) = [x]"
  by (cases xs) simp_all

subsection \<open>Thread registry\<close>

lemma register_in_range:
  assumes "threads_on w" "0 \<le> active_threads (g_perf_context w)"
    "active_threads (g_perf_context w) < int PERF_MAX_THREADS"
  shows "\<exists>w'. perf_register_thread env w = Inr (active_threads (g_perf_context w), w') \<and>
           threads_on w' \<and>
           active_threads (g_perf_context w') = active_threads (g_perf_context w) + 1"
  using assms by (simp add: perf_register_thread_def Let_def threads_on_def)

lemma unregister_counter:
  assumes "threads_on w"
  shows "threads_on (perf_unregister_thread env w)"
    and "active_threads (g_perf_context (perf_unregister_thread env w))
           = active_threads (g_perf_context w) - 1"
  using assms by (simp_all add: perf_unregister_thread_def Let_def threads_on_def)

lemma thread_indices_counter:
  assumes "threads_on w"
    and "set (map snd cs) \<subseteq> {Register_thread, Unregister_thread}"
    and "\<forall>i \<in> set (counter_ids (active_threads (g_perf_context w)) (map snd cs)).
           0 \<le> i \<and> i < int PERF_MAX_THREADS"
  shows "thread_indices cs w = Inr (counter_ids (active_threads (g_perf_context w)) (map snd cs))"
  using assms
proof (induction cs arbitrary: w)
  case Nil
  then show ?case by simp
next
  case (Cons a cs)
  obtain env c where a: "a = (env, c)" by (cases a)
  from Cons.prems(2) a have c: "c = Register_thread \<or> c = Unregister_thread" by simp
  from Cons.prems(2) have rest: "set (map snd cs) \<subseteq> {Register_thread, Unregister_thread}" by simp
  show ?case
  proof (cases "c = Register_thread")
    case True
    from Cons.prems(3) a True
    have rng: "0 \<le> active_threads (g_perf_context w)"
      "active_threads (g_perf_context w) < int PERF_MAX_THREADS" by simp_all
    from register_in_range [OF Cons.prems(1) rng, of env]
    obtain w' where w': "perf_register_thread env w = Inr (active_threads (g_perf_context w), w')"
      "threads_on w'" "active_threads (g_perf_context w') = active_threads (g_perf_context w) + 1"
      by blast
    from Cons.prems(3) a True w'(3)
    have "\<forall>i \<in> set (counter_ids (active_threads (g_perf_context w')) (map snd cs)).
           0 \<le> i \<and> i < int PERF_MAX_THREADS" by simp
    from Cons.IH [OF w'(2) rest this] show ?thesis
      using a True w' by simp
  next
    case False
    with c have u: "c = Unregister_thread" by simp
    let ?w' = "perf_unregister_thread env w"
    note uc = unregister_counter [OF Cons.prems(1), of env]
    from Cons.prems(3) a u uc(2)
    have "\<forall>i \<in> set (counter_ids (active_threads (g_perf_context ?w')) (map snd cs)).
           0 \<le> i \<and> i < int PERF_MAX_THREADS" by simp
    from Cons.IH [OF uc(1) rest this] show ?thesis
      using a u uc by simp
  qed
qed

lemma counter_ids_registers:
  "counter_ids k (replicate n Register_thread) = map (\<lambda>i. k + int i) [0..<n]"
proof (induction n arbitrary: k)
  case 0
  then show ?case by simp
next
  case (Suc n)
  have "map (\<lambda>i. k + int i) [0..<Suc n] = k # map (\<lambda>i. k + 1 + int i) [0..<n]"
    by (simp add: upt_conv_Cons map_Suc_upt [symmetric] del: upt_Suc)
  then show ?case using Suc.IH [of "k + 1"] by simp
qed

lemma run_registers:
  assumes "threads_on w" "0 \<le> active_threads (g_perf_context w)"
    "active_threads (g_perf_context w) + int n \<le> int PERF_MAX_THREADS"
  shows "\<exists>w'. perf_run (replicate n (env, Register_thread)) w = Inr w' \<and> threads_on w' \<and>
           active_threads (g_perf_context w') = active_threads (g_perf_context w) + int n"
  using assms
proof (induction n arbitrary: w)
  case 0
  then show ?case by simp
next
  case (Suc n)
  from Suc.prems have rng: "active_threads (g_perf_context w) < int PERF_MAX_THREADS" by simp
  from register_in_range [OF Suc.prems(1,2) rng, of env]
  obtain w1 where w1: "perf_register_thread env w = Inr (active_threads (g_perf_context w), w1)"
    "threads_on w1" "active_threads (g_perf_context w1) = active_threads (g_perf_context w) + 1"
    by blast
  from Suc.prems w1(3) have p: "0 \<le> active_threads (g_perf_context w1)"
    "active_threads (g_perf_context w1) + int n \<le> int PERF_MAX_THREADS" by simp_all
  from Suc.IH [OF w1(2) p] obtain w' where
    "perf_run (replicate n (env, Register_thread)) w1 = Inr w'" "threads_on w'"
    "active_threads (g_perf_context w') = active_threads (g_perf_context w1) + int n" by blast
  then show ?case using w1 by simp
qed

lemma perf_run_append:
  "perf_run (xs @ ys) w = (case perf_run xs w of Inl e \<Rightarrow> Inl e | Inr w' \<Rightarrow> perf_run ys w')"
  by (induction xs arbitrary: w) (auto split: sum.splits)

lemma threads_on_started [simp]: "threads_on started_world"
  by (simp add: threads_on_def)

subsection \<open>Formatting\<close>

lemma show_nat_length: "n < 10 ^ k \<Longrightarrow> 0 < k \<Longrightarrow> length (show_nat n) \<le> k"
proof (induction k arbitrary: n)
  case 0
  then show ?case by simp
next
  case (Suc k)
  show ?case
  proof (cases "n < 10")
    case True
    then show ?thesis by (simp add: show_nat.simps [of n])
  next
    case False
    with Suc.prems have k: "0 < k" by (cases k) simp_all
    from Suc.prems have "n div 10 < 10 ^ k" by (simp add: less_mult_imp_div_less mult.commute)
    from Suc.IH [OF this k] False show ?thesis by (simp add: show_nat.simps [of n])
  qed
qed

lemma show_nat_length_eq: "10 ^ k \<le> n \<Longrightarrow> n < 10 ^ Suc k \<Longrightarrow> length (show_nat n) = Suc k"
proof (induction k arbitrary: n)
  case 0
  then show ?case by (simp add: show_nat.simps [of n])
next
  case (Suc k)
  have "(10::nat) \<le> 10 ^ Suc k" by simp
  with Suc.prems have ge: "\<not> n < 10" by linarith
  from Suc.prems have lo: "10 ^ k \<le> n div 10"
    by (simp add: less_eq_div_iff_mult_less_eq mult.commute)
  from Suc.prems have hi: "n div 10 < 10 ^ Suc k"
    by (simp add: less_mult_imp_div_less mult.commute)
  from Suc.IH [OF lo hi] ge show ?case by (simp add: show_nat.simps [of n])
qed

lemma printf_d_length:
  assumes "- (2 ^ 31) \<le> i" "i < 2 ^ 31"
  shows "length (printf_d i) \<le> 11"
proof -
  have "nat \<bar>i\<bar> < 10 ^ 10" using assms by simp
  then have "length (show_nat (nat \<bar>i\<bar>)) \<le> 10" by (rule show_nat_length) simp
  then show ?thesis by (auto simp add: printf_d_def abs_if)
qed

lemma iteration_label_fits:
  assumes "- (2 ^ 31) \<le> i" "i < 2 ^ 31"
  shows "bounded_label (''iteration_'' @ printf_d i) = ''iteration_'' @ printf_d i"
  using printf_d_length [OF assms] by (simp add: bounded_label_def PERF_MAX_LABEL_LEN_def)

lemma replicate_numeral_unfold: "replicate (numeral k) x = x # replicate (pred_numeral k) x"
  by (simp add: numeral_eq_Suc)

lemma printf_examples:
  "printf_f 6 (42 / 100) = ''0.420000''"
  "printf_d 3 = ''3''"
  unfolding printf_f_def printf_d_def round_half_even_def Let_def pad_zero_def
  by (simp_all add: show_nat.simps digit_char_def replicate_numeral_unfold)

lemma take_Suc_update:
  "n < length xs \<Longrightarrow> take (Suc n) (xs[n := x]) = take n xs @ [x]"
  by (simp add: take_Suc_conv_app_nth)

lemma iteration_record:
  assumes "enabled (config (g_perf_context w))"
    and "log_count (g_perf_context w) < log_capacity (g_perf_context w)"
    and "well_formed (g_perf_context w)"
  shows "log_count (g_perf_context (perf_log_iteration env i x w)) = log_count (g_perf_context w) + 1"
    and "records (g_perf_context (perf_log_iteration env i x w)) = records (g_perf_context w) @
           [log_entries (g_perf_context (perf_log_iteration env i x w)) ! log_count (g_perf_context w)]"
    and "log_entries (g_perf_context (perf_log_iteration env i x w)) ! log_count (g_perf_context w)
           = (log_entries (g_perf_context w) ! log_count (g_perf_context w))
               \<lparr>milestone := PERF_MILESTONE_CLUSTERING_ITERATION,
                timestamp := perf_get_timestamp env, duration_ms := 0,
                thread_count := active_threads (g_perf_context w),
                iteration_number := i, convergence_metric := x,
                label := bounded_label (''iteration_'' @ printf_d i),
                context_str := bounded_label (''convergence='' @ printf_f 6 x)\<rparr>"
  using assms
  by (simp_all add: perf_log_iteration_def Let_def well_formed_def records_def take_Suc_update
      perf_get_thread_count_def)

subsection \<open>Lines of the CSV export\<close>

lemma line_count_simps [simp]:
  "line_count [] = 0"
  "line_count (a @ b) = line_count a + line_count b"
  "line_count (c # s) = (if c = CHR 0x0A then 1 else 0) + line_count s"
  by (simp_all add: line_count_def)

lemma line_count_zero: "line_count s = 0 \<longleftrightarrow> CHR 0x0A \<notin> set s"
  by (induction s) auto

lemma digit_char_no_newline: "d < 10 \<Longrightarrow> digit_char d \<noteq> CHR 0x0A"
proof -
  assume "d < 10"
  then have "digit_char d \<in> set ''0123456789''"
    unfolding digit_char_def by (intro nth_mem) simp
  then show ?thesis by auto
qed

lemma line_count_show_nat [simp]: "line_count (show_nat n) = 0"
proof (induction n rule: show_nat.induct)
  case (1 n)
  show ?case
  proof (cases "n < 10")
    case True
    then show ?thesis by (simp add: show_nat.simps [of n] digit_char_no_newline)
  next
    case False
    then show ?thesis using 1 by (simp add: show_nat.simps [of n] digit_char_no_newline)
  qed
qed

lemma line_count_replicate_zero [simp]: "line_count (replicate k CHR ''0'') = 0"
  by (induction k) simp_all

lemma line_count_printf [simp]:
  "line_count (printf_d i) = 0"
  "line_count (printf_09ld i) = 0"
  "line_count (printf_f p x) = 0"
  by (simp_all add: printf_d_def printf_09ld_def printf_f_def pad_zero_def Let_def)

lemma milestone_names_no_newline: "\<forall>s \<in> set milestone_names. line_count s = 0"
  by (simp add: milestone_names_def)

lemma line_count_milestone_name [simp]: "line_count (perf_milestone_name m) = 0"
proof (cases "m < PERF_MILESTONE_COUNT")
  case True
  then have "milestone_names ! m \<in> set milestone_names"
    by (intro nth_mem) (simp add: milestone_names_def PERF_MILESTONE_COUNT_def)
  then show ?thesis using True milestone_names_no_newline by (simp add: perf_milestone_name_def)
next
  case False
  then show ?thesis by (simp add: perf_milestone_name_def)
qed

lemma line_count_csv_row:
  "line_count (csv_row e) = 1 + line_count (label e) + line_count (context_str e)"
  by (simp add: csv_row_def)

lemma line_count_csv_header: "line_count csv_header = 1"
  by (simp add: csv_header_def)

lemma line_count_rows:
  "\<forall>e \<in> set es. single_line e \<Longrightarrow> line_count (concat (map csv_row es)) = length es"
  by (induction es) (simp_all add: line_count_csv_row single_line_def line_count_zero)

lemma fold_flush_csv:
  "fold (flush_entry PERF_FORMAT_CSV f) es fs = fs(f := fs f @ concat (map csv_row es))"
  by (induction es arbitrary: fs) (simp_all add: flush_entry_def fprintf_def)

lemma export_streams:
  assumes "fopen_result env = Some f" "enabled (config (g_perf_context w))"
  shows "streams (perf_export_csv env (Some name) w)
           = (streams w)(f := csv_header @ concat (map csv_row (records (g_perf_context w))))"
  using assms
  by (simp add: perf_export_csv_def perf_flush_logs_def Let_def fold_flush_csv fprintf_def records_def)

lemma export_open_fails:
  assumes "fopen_result env = None"
  shows "perf_export_csv env (Some name) w = w"
  using assms by (simp add: perf_export_csv_def Let_def)

subsection \<open>The record buffer\<close>

lemma event_records:
  assumes "enabled (config (g_perf_context w))"
    and "log_count (g_perf_context w) < log_capacity (g_perf_context w)"
    and "well_formed (g_perf_context w)"
  shows "records (g_perf_context (perf_log_event_with_context env (Some l) v c w))
           = records (g_perf_context w) @
             [(log_entries (g_perf_context w) ! log_count (g_perf_context w))
                \<lparr>milestone := PERF_MILESTONE_USER_1, timestamp := perf_get_timestamp env,
                 duration_ms := v, thread_count := active_threads (g_perf_context w),
                 label := bounded_label l,
                 context_str := (case c of Some s \<Rightarrow> bounded_label s | None \<Rightarrow> [])\<rparr>]"
    and "log_count (g_perf_context (perf_log_event_with_context env (Some l) v c w))
           = log_count (g_perf_context w) + 1"
    and "config (g_perf_context (perf_log_event_with_context env (Some l) v c w))
           = config (g_perf_context w)"
    and "length (log_entries (g_perf_context (perf_log_event_with_context env (Some l) v c w)))
           = length (log_entries (g_perf_context w))"
  using assms
  by (simp_all add: perf_log_event_with_context_def Let_def well_formed_def records_def
      take_Suc_update perf_get_thread_count_def)

lemma started_records [simp]: "records (g_perf_context started_world) = []"
  by (simp add: records_def)

lemma started_not_full:
  "log_count (g_perf_context started_world) < log_capacity (g_perf_context started_world)"
  by (simp add: PERF_MAX_LOG_ENTRIES_def)

lemma started_first_slot: "log_entries (g_perf_context started_world) ! 0 = stale_entry"
  by (simp add: PERF_MAX_LOG_ENTRIES_def)

lemma buffer_ok_records: "buffer_ok g \<Longrightarrow> length (records g) = log_count g"
  by (simp add: buffer_ok_def well_formed_def records_def)

lemma init_buffer_ok:
  assumes "perf_init_with_config env0 heap cfg w0 = (0, w)"
  shows "buffer_ok (g_perf_context w)" and "log_capacity (g_perf_context w) = PERF_MAX_LOG_ENTRIES"
    and "log_count (g_perf_context w) = 0"
    and "milestone_active (g_perf_context w) = replicate PERF_MILESTONE_COUNT False"
  using assms
  by (auto simp add: perf_init_with_config_def Let_def buffer_ok_def well_formed_def zero_context_def
      split: option.splits if_splits)

lemma init_started: "perf_init_with_config example_env example_heap (Some default_config) initial_world
    = (0, started_world)"
  by (simp add: started_world_def perf_init_def perf_init_with_config_def Let_def example_env_def)

text \<open>What each operation does to the context.\<close>

lemma entry_durations [simp]:
  "duration_ms (end_entry env m lbl g)
     = perf_timestamp_diff_ms (milestone_starts g ! m) (perf_get_timestamp env)"
  "duration_ms (event_entry env l v c g) = v"
  "duration_ms (iteration_entry env i x g) = 0"
  by (simp_all add: end_entry_def event_entry_def iteration_entry_def Let_def)

lemma end_g:
  "g_perf_context (perf_end_milestone_labeled env m l w) =
     (let g = g_perf_context w
      in if \<not> enabled (config g) \<or> PERF_MILESTONE_COUNT \<le> m \<or> \<not> milestone_active g ! m then g
         else (if log_count g < log_capacity g then publish (end_entry env m l g) g else g)
                \<lparr>milestone_active :=
                   (milestone_active (if log_count g < log_capacity g then publish (end_entry env m l g) g else g))
                     [m := False]\<rparr>)"
  by (simp add: perf_end_milestone_labeled_def Let_def publish_def end_entry_def)

lemma event_g:
  "g_perf_context (perf_log_event_with_context env lbl v c w) =
     (let g = g_perf_context w
      in if lbl = None \<or> \<not> enabled (config g) \<or> \<not> log_count g < log_capacity g then g
         else publish (event_entry env (the lbl) v c g) g)"
  by (cases lbl) (simp_all add: perf_log_event_with_context_def Let_def publish_def event_entry_def)

lemma iteration_g:
  "g_perf_context (perf_log_iteration env i x w) =
     (let g = g_perf_context w
      in if \<not> enabled (config g) \<or> \<not> log_count g < log_capacity g then g
         else publish (iteration_entry env i x g) g)"
  by (simp add: perf_log_iteration_def Let_def publish_def iteration_entry_def)

lemma algorithm_step_g:
  "g_perf_context (perf_log_algorithm_step env a s x w) =
     (let g = g_perf_context w
      in if a = None \<or> s = None \<or> \<not> enabled (config g) \<or> \<not> log_count g < log_capacity g then g
         else publish (event_entry env (bounded_label (the a @ ''_'' @ the s)) x
                (Some (bounded_label (''metric='' @ printf_f 6 x))) g) g)"
  by (cases a; cases s) (simp_all add: perf_log_algorithm_step_def event_g Let_def)

lemma publish_fields [simp]:
  "log_count (publish e g) = log_count g + 1"
  "log_capacity (publish e g) = log_capacity g"
  "length (log_entries (publish e g)) = length (log_entries g)"
  "thread_data (publish e g) = thread_data g"
  "milestone_starts (publish e g) = milestone_starts g"
  "milestone_active (publish e g) = milestone_active g"
  "config (publish e g) = config g"
  by (simp_all add: publish_def)

lemma publish_records:
  "log_count g < length (log_entries g) \<Longrightarrow> records (publish e g) = records g @ [e]"
  by (simp add: publish_def records_def take_Suc_update)

lemma start_g:
  "g_perf_context (perf_start_milestone_labeled env m l w) =
     (let g = g_perf_context w
      in if \<not> enabled (config g) \<or> PERF_MILESTONE_COUNT \<le> m then g
         else g\<lparr>milestone_starts := (milestone_starts g)[m := perf_get_timestamp env],
                milestone_active := (milestone_active g)[m := True]\<rparr>)"
  by (simp add: perf_start_milestone_labeled_def Let_def)

lemma register_g:
  assumes "perf_register_thread env w = Inr (r, w')"
  shows "log_entries (g_perf_context w') = log_entries (g_perf_context w)"
    and "log_count (g_perf_context w') = log_count (g_perf_context w)"
    and "log_capacity (g_perf_context w') = log_capacity (g_perf_context w)"
    and "milestone_starts (g_perf_context w') = milestone_starts (g_perf_context w)"
    and "milestone_active (g_perf_context w') = milestone_active (g_perf_context w)"
    and "length (thread_data (g_perf_context w')) = length (thread_data (g_perf_context w))"
  using assms by (auto simp add: perf_register_thread_def Let_def split: if_splits)

lemma unregister_g:
  "log_entries (g_perf_context (perf_unregister_thread env w)) = log_entries (g_perf_context w)"
  "log_count (g_perf_context (perf_unregister_thread env w)) = log_count (g_perf_context w)"
  "log_capacity (g_perf_context (perf_unregister_thread env w)) = log_capacity (g_perf_context w)"
  "milestone_starts (g_perf_context (perf_unregister_thread env w)) = milestone_starts (g_perf_context w)"
  "milestone_active (g_perf_context (perf_unregister_thread env w)) = milestone_active (g_perf_context w)"
  "length (thread_data (g_perf_context (perf_unregister_thread env w))) = length (thread_data (g_perf_context w))"
  by (simp_all add: perf_unregister_thread_def Let_def)

lemma reset_g:
  "g_perf_context (perf_reset env w) =
     (let g = g_perf_context w
      in if \<not> enabled (config g) then g
         else g\<lparr>log_count := 0, total_runtime_ms := 0, peak_memory_kb := 0, max_threads_used := 0,
                program_start_time := perf_get_timestamp env,
                milestone_active := replicate PERF_MILESTONE_COUNT False\<rparr>)"
  by (simp add: perf_reset_def Let_def)

lemma set_enabled_g:
  "g_perf_context (perf_set_enabled b w) = (g_perf_context w)\<lparr>config := (config (g_perf_context w))\<lparr>enabled := b\<rparr>\<rparr>"
  by (simp add: perf_set_enabled_def)

text \<open>Every step keeps the capacity and the order of the buffer.\<close>

lemma step_buffer_ok:
  assumes "perf_step env c w = Inr w'" and "buffer_ok (g_perf_context w)"
  shows "buffer_ok (g_perf_context w') \<and> log_capacity (g_perf_context w') = log_capacity (g_perf_context w)"
proof (cases c)
  case (Start_milestone m l)
  then show ?thesis using assms by (auto simp add: start_g Let_def buffer_ok_def well_formed_def)
next
  case (End_milestone m l)
  then show ?thesis using assms by (auto simp add: end_g Let_def buffer_ok_def well_formed_def)
next
  case (Log_event l v ctxt)
  then show ?thesis using assms by (auto simp add: event_g Let_def buffer_ok_def well_formed_def)
next
  case (Log_iteration i x)
  then show ?thesis using assms by (auto simp add: iteration_g Let_def buffer_ok_def well_formed_def)
next
  case (Log_algorithm_step a s x)
  then show ?thesis using assms
    by (auto simp add: algorithm_step_g Let_def buffer_ok_def well_formed_def)
next
  case Register_thread
  with assms(1) obtain r where "perf_register_thread env w = Inr (r, w')"
    by (auto split: sum.splits)
  from register_g [OF this] show ?thesis using assms(2) by (simp add: buffer_ok_def well_formed_def)
next
  case Unregister_thread
  then show ?thesis using assms by (auto simp add: unregister_g buffer_ok_def well_formed_def)
next
  case Reset
  then show ?thesis using assms by (auto simp add: reset_g Let_def buffer_ok_def well_formed_def)
next
  case (Set_enabled b)
  then show ?thesis using assms by (auto simp add: set_enabled_g buffer_ok_def well_formed_def)
next
  case Flush_logs
  then show ?thesis using assms by auto
next
  case (Export_csv f)
  then show ?thesis using assms by auto
qed

lemma run_buffer_ok:
  assumes "perf_run cs w = Inr w'" and "buffer_ok (g_perf_context w)"
  shows "buffer_ok (g_perf_context w') \<and> log_capacity (g_perf_context w') = log_capacity (g_perf_context w)"
  using assms
proof (induction cs arbitrary: w)
  case Nil
  then show ?case by simp
next
  case (Cons a cs)
  obtain env c where a: "a = (env, c)" by (cases a)
  from Cons.prems(1) a obtain w1 where w1: "perf_step env c w = Inr w1" "perf_run cs w1 = Inr w'"
    by (auto split: sum.splits)
  from step_buffer_ok [OF w1(1) Cons.prems(2)] Cons.IH [OF w1(2)] show ?case by simp
qed

lemma full_buffer_publish:
  assumes "\<not> log_count (g_perf_context w) < log_capacity (g_perf_context w)"
  shows "perf_log_event_with_context env l v c w = w"
    and "perf_log_iteration env2 i x w = w"
    and "perf_log_algorithm_step env3 a s y w = w"
    and "log_count (g_perf_context (perf_end_milestone_labeled env4 m l4 w)) = log_count (g_perf_context w)"
    and "log_entries (g_perf_context (perf_end_milestone_labeled env4 m l4 w)) = log_entries (g_perf_context w)"
  using assms
  by (simp_all add: perf_log_event_with_context_def perf_log_iteration_def perf_log_algorithm_step_def
      perf_end_milestone_labeled_def Let_def split: option.splits)

lemma run_events:
  assumes "enabled (config (g_perf_context w))" and "buffer_ok (g_perf_context w)"
  shows "\<exists>w'. perf_run (replicate n (env, Log_event (Some l) v c)) w = Inr w' \<and>
           enabled (config (g_perf_context w')) \<and> buffer_ok (g_perf_context w') \<and>
           log_capacity (g_perf_context w') = log_capacity (g_perf_context w) \<and>
           log_count (g_perf_context w')
             = min (log_count (g_perf_context w) + n) (log_capacity (g_perf_context w))"
  using assms
proof (induction n arbitrary: w)
  case 0
  then show ?case by (simp add: buffer_ok_def)
next
  case (Suc n)
  let ?w1 = "perf_log_event_with_context env (Some l) v c w"
  have s: "perf_step env (Log_event (Some l) v c) w = Inr ?w1" by simp
  from step_buffer_ok [OF s Suc.prems(2)]
  have ok: "buffer_ok (g_perf_context ?w1)"
    and cap: "log_capacity (g_perf_context ?w1) = log_capacity (g_perf_context w)" by simp_all
  have en: "enabled (config (g_perf_context ?w1))"
    using Suc.prems(1) by (simp add: event_g Let_def)
  have cnt: "log_count (g_perf_context ?w1)
      = (if log_count (g_perf_context w) < log_capacity (g_perf_context w)
         then log_count (g_perf_context w) + 1 else log_count (g_perf_context w))"
    using Suc.prems(1) by (simp add: event_g Let_def)
  from Suc.IH [OF en ok] obtain w' where w':
    "perf_run (replicate n (env, Log_event (Some l) v c)) ?w1 = Inr w'"
    "enabled (config (g_perf_context w'))" "buffer_ok (g_perf_context w')"
    "log_capacity (g_perf_context w') = log_capacity (g_perf_context ?w1)"
    "log_count (g_perf_context w')
       = min (log_count (g_perf_context ?w1) + n) (log_capacity (g_perf_context ?w1))"
    by blast
  have "log_count (g_perf_context w')
      = min (log_count (g_perf_context w) + Suc n) (log_capacity (g_perf_context w))"
    using w'(5) cnt cap Suc.prems(2) by (auto simp add: buffer_ok_def min_def)
  then show ?case using w' cap by simp
qed

lemma started_buffer_ok [simp]: "buffer_ok (g_perf_context started_world)"
  by (simp add: buffer_ok_def PERF_MAX_LOG_ENTRIES_def)

lemma started_full_run:
  assumes "PERF_MAX_LOG_ENTRIES \<le> n"
  shows "\<exists>w'. perf_run (replicate n (example_env, Log_event (Some ''d'') 1 None)) started_world = Inr w' \<and>
           log_count (g_perf_context w') = PERF_MAX_LOG_ENTRIES \<and>
           log_capacity (g_perf_context w') = PERF_MAX_LOG_ENTRIES"
  using run_events [of started_world n example_env "''d''" 1 None] assms by auto

subsection \<open>Durations\<close>

lemma timespec_le_trans: "timespec_le a b \<Longrightarrow> timespec_le b c \<Longrightarrow> timespec_le a c"
  by (auto simp add: timespec_le_def)

lemma timespec_le_refl [simp]: "timespec_le a a"
  by (simp add: timespec_le_def)

lemma diff_ms_nonneg:
  assumes "timespec_valid (ts a)" "timespec_valid (ts b)" "timespec_le (ts a) (ts b)"
  shows "0 \<le> perf_timestamp_diff_ms a b"
proof -
  from assms(3) consider (lt) "tv_sec (ts a) < tv_sec (ts b)"
    | (eq) "tv_sec (ts a) = tv_sec (ts b)" "tv_nsec (ts a) \<le> tv_nsec (ts b)"
    by (auto simp add: timespec_le_def)
  then show ?thesis
  proof cases
    case lt
    then have "tv_sec (ts a) + 1 \<le> tv_sec (ts b)" by simp
    then have s: "real_of_int (tv_sec (ts a)) + 1 \<le> real_of_int (tv_sec (ts b))" by linarith
    from assms(1) have "real_of_int (tv_nsec (ts a)) < 1000000000"
      by (simp add: timespec_valid_def)
    then have n1: "real_of_int (tv_nsec (ts a)) / 1000000 < 1000" by simp
    from assms(2) have n2: "0 \<le> real_of_int (tv_nsec (ts b)) / 1000000"
      by (simp add: timespec_valid_def)
    show ?thesis using s n1 n2 by (simp add: perf_timestamp_diff_ms_def Let_def)
  next
    case eq
    then have "real_of_int (tv_nsec (ts a)) / 1000000 \<le> real_of_int (tv_nsec (ts b)) / 1000000"
      by (simp add: divide_right_mono)
    then show ?thesis using eq(1) by (simp add: perf_timestamp_diff_ms_def Let_def)
  qed
qed

lemma starts_before_mono: "starts_before t g \<Longrightarrow> timespec_le t t' \<Longrightarrow> starts_before t' g"
  by (auto simp add: starts_before_def intro: timespec_le_trans)

lemma starts_before_publish [simp]: "starts_before t (publish e g) = starts_before t g"
  by (simp add: starts_before_def)

lemma durations_publish:
  assumes "buffer_ok g" "log_count g < log_capacity g" "durations_nonneg g" "0 \<le> duration_ms e"
  shows "durations_nonneg (publish e g)"
proof -
  from assms(1,2) have "log_count g < length (log_entries g)"
    by (simp add: buffer_ok_def well_formed_def)
  from publish_records [OF this] assms(3,4) show ?thesis by (simp add: durations_nonneg_def)
qed

lemma records_frame [simp]:
  "records (g\<lparr>milestone_active := xs\<rparr>) = records g"
  "records (g\<lparr>milestone_starts := ys\<rparr>) = records g"
  "records (g\<lparr>config := cf\<rparr>) = records g"
  by (simp_all add: records_def)

lemma durations_frame [simp]:
  "durations_nonneg (g\<lparr>milestone_active := xs\<rparr>) = durations_nonneg g"
  "durations_nonneg (g\<lparr>milestone_starts := ys\<rparr>) = durations_nonneg g"
  "durations_nonneg (g\<lparr>config := cf\<rparr>) = durations_nonneg g"
  by (simp_all add: durations_nonneg_def)

lemma nth_update_cases: "(xs[i := x]) ! j = (if i = j \<and> i < length xs then x else xs ! j)"
  by (cases "i < length xs") (auto simp add: nth_list_update list_update_beyond)

lemma starts_before_deactivate:
  assumes "starts_before t g" "length (milestone_active g) = PERF_MILESTONE_COUNT"
  shows "starts_before t (g\<lparr>milestone_active := (milestone_active g)[m := False]\<rparr>)"
  using assms by (auto simp add: starts_before_def nth_update_cases)

lemma starts_before_start:
  assumes "starts_before t g" "timespec_valid t"
    "length (milestone_active g) = PERF_MILESTONE_COUNT"
    "length (milestone_starts g) = PERF_MILESTONE_COUNT"
  shows "starts_before t (g\<lparr>milestone_starts := (milestone_starts g)[m := \<lparr>ts = t, cycles = 0\<rparr>],
                            milestone_active := (milestone_active g)[m := True]\<rparr>)"
  using assms by (auto simp add: starts_before_def nth_update_cases)

lemma step_run_inv:
  assumes inv: "run_inv t (g_perf_context w)"
    and valid: "timespec_valid (clock_now env)"
    and le: "timespec_le t (clock_now env)"
    and val: "value_nonneg c"
    and step: "perf_step env c w = Inr w'"
  shows "run_inv (clock_now env) (g_perf_context w')"
proof -
  let ?g = "g_perf_context w"
  let ?now = "clock_now env"
  from inv have ok: "buffer_ok ?g" and dur: "durations_nonneg ?g" and st0: "starts_before t ?g"
    by (simp_all add: run_inv_def)
  from st0 le have st: "starts_before ?now ?g" by (rule starts_before_mono)
  from ok have la: "length (milestone_active ?g) = PERF_MILESTONE_COUNT"
    and ls: "length (milestone_starts ?g) = PERF_MILESTONE_COUNT"
    by (simp_all add: buffer_ok_def well_formed_def)
  from step_buffer_ok [OF step ok] have ok': "buffer_ok (g_perf_context w')" by simp
  have "durations_nonneg (g_perf_context w') \<and> starts_before ?now (g_perf_context w')"
  proof (cases c)
    case (Start_milestone m l)
    then have w': "w' = perf_start_milestone_labeled env m l w" using step by simp
    show ?thesis
      using dur st starts_before_start [OF st valid la ls, of m]
      by (simp add: w' start_g Let_def perf_get_timestamp_def)
  next
    case (End_milestone m l)
    then have w': "w' = perf_end_milestone_labeled env m l w" using step by simp
    show ?thesis
    proof (cases "\<not> enabled (config ?g) \<or> PERF_MILESTONE_COUNT \<le> m \<or> \<not> milestone_active ?g ! m")
      case True
      then show ?thesis using dur st by (auto simp add: w' end_g Let_def)
    next
      case False
      then have m: "m < PERF_MILESTONE_COUNT" and act: "milestone_active ?g ! m" by simp_all
      from st m act have sv: "timespec_valid (ts (milestone_starts ?g ! m))"
        and sl: "timespec_le (ts (milestone_starts ?g ! m)) ?now"
        by (simp_all add: starts_before_def)
      have d: "0 \<le> duration_ms (end_entry env m l ?g)"
        using diff_ms_nonneg [of "milestone_starts ?g ! m" "perf_get_timestamp env"] sv sl valid
        by (simp add: perf_get_timestamp_def)
      show ?thesis
      proof (cases "log_count ?g < log_capacity ?g")
        case full: False
        then show ?thesis
          using False dur starts_before_deactivate [OF st la, of m]
          by (simp add: w' end_g Let_def)
      next
        case True
        have p: "durations_nonneg (publish (end_entry env m l ?g) ?g)"
          by (rule durations_publish [OF ok True dur d])
        have q: "starts_before ?now (publish (end_entry env m l ?g) ?g)" using st by simp
        have lp: "length (milestone_active (publish (end_entry env m l ?g) ?g)) = PERF_MILESTONE_COUNT"
          using la by simp
        from starts_before_deactivate [OF q lp, of m] p show ?thesis
          using False True by (simp add: w' end_g Let_def)
      qed
    qed
  next
    case (Log_event l v ctxt)
    then have w': "w' = perf_log_event_with_context env l v ctxt w" and v: "0 \<le> v"
      using step val by simp_all
    show ?thesis
    proof (cases "l = None \<or> \<not> enabled (config ?g) \<or> \<not> log_count ?g < log_capacity ?g")
      case True
      then show ?thesis using dur st by (auto simp add: w' event_g Let_def)
    next
      case False
      then have lt: "log_count ?g < log_capacity ?g" by simp
      from False obtain y where y: "l = Some y" by auto
      have "durations_nonneg (publish (event_entry env (the l) v ctxt ?g) ?g)"
        by (rule durations_publish [OF ok lt dur]) (simp add: v)
      then show ?thesis using False st by (simp add: w' event_g Let_def y)
    qed
  next
    case (Log_iteration i x)
    then have w': "w' = perf_log_iteration env i x w" using step by simp
    show ?thesis
    proof (cases "\<not> enabled (config ?g) \<or> \<not> log_count ?g < log_capacity ?g")
      case True
      then show ?thesis using dur st by (auto simp add: w' iteration_g Let_def)
    next
      case False
      then have lt: "log_count ?g < log_capacity ?g" by simp
      have "durations_nonneg (publish (iteration_entry env i x ?g) ?g)"
        by (rule durations_publish [OF ok lt dur]) simp
      then show ?thesis using False st by (simp add: w' iteration_g Let_def)
    qed
  next
    case (Log_algorithm_step a s x)
    then have w': "w' = perf_log_algorithm_step env a s x w" and v: "0 \<le> x"
      using step val by simp_all
    show ?thesis
    proof (cases "a = None \<or> s = None \<or> \<not> enabled (config ?g) \<or> \<not> log_count ?g < log_capacity ?g")
      case True
      then show ?thesis using dur st by (auto simp add: w' algorithm_step_g Let_def)
    next
      case False
      then have lt: "log_count ?g < log_capacity ?g" by simp
      from False obtain a' s' where y: "a = Some a'" "s = Some s'" by auto
      have "durations_nonneg (publish (event_entry env (bounded_label (the a @ ''_'' @ the s)) x
                (Some (bounded_label (''metric='' @ printf_f 6 x))) ?g) ?g)"
        by (rule durations_publish [OF ok lt dur]) (simp add: v)
      then show ?thesis using False st by (simp add: w' algorithm_step_g Let_def y)
    qed
  next
    case Register_thread
    with step obtain r where "perf_register_thread env w = Inr (r, w')"
      by (auto split: sum.splits)
    from register_g [OF this] dur st show ?thesis
      by (simp add: durations_nonneg_def starts_before_def records_def)
  next
    case Unregister_thread
    then have w': "w' = perf_unregister_thread env w" using step by simp
    show ?thesis using dur st
      by (simp add: w' durations_nonneg_def starts_before_def records_def unregister_g)
  next
    case Reset
    then have w': "w' = perf_reset env w" using step by simp
    show ?thesis using dur st
      by (auto simp add: w' reset_g Let_def durations_nonneg_def starts_before_def records_def)
  next
    case (Set_enabled b)
    then have w': "w' = perf_set_enabled b w" using step by simp
    show ?thesis using dur st
      by (simp add: w' set_enabled_g starts_before_def)
  next
    case Flush_logs
    then show ?thesis using step dur st by auto
  next
    case (Export_csv f)
    then show ?thesis using step dur st by auto
  qed
  then show ?thesis using ok' by (simp add: run_inv_def)
qed

lemma run_run_inv:
  assumes "run_inv t (g_perf_context w)" and "clock_monotone t cs"
    and "\<forall>c \<in> set (map snd cs). value_nonneg c" and "perf_run cs w = Inr w'"
  shows "durations_nonneg (g_perf_context w')"
  using assms
proof (induction cs arbitrary: t w)
  case Nil
  then show ?case by (simp add: run_inv_def)
next
  case (Cons a cs)
  obtain env c where a: "a = (env, c)" by (cases a)
  from Cons.prems(4) a obtain w1 where w1: "perf_step env c w = Inr w1" "perf_run cs w1 = Inr w'"
    by (auto split: sum.splits)
  from Cons.prems(2) a have v: "timespec_valid (clock_now env)" and l: "timespec_le t (clock_now env)"
    and m: "clock_monotone (clock_now env) cs" by simp_all
  from Cons.prems(3) a have vc: "value_nonneg c" and vr: "\<forall>c \<in> set (map snd cs). value_nonneg c"
    by simp_all
  from step_run_inv [OF Cons.prems(1) v l vc w1(1)] have "run_inv (clock_now env) (g_perf_context w1)" .
  from Cons.IH [OF this m vr w1(2)] show ?case .
qed

lemma init_run_inv:
  assumes "perf_init_with_config env0 heap cfg w0 = (0, w)"
  shows "run_inv t (g_perf_context w)"
  using init_buffer_ok [OF assms]
  by (simp add: run_inv_def durations_nonneg_def starts_before_def records_def)

subsection \<open>The full buffer and overlapping publish attempts\<close>

lemma full_buffer_end:
  assumes "\<not> log_count (g_perf_context w) < log_capacity (g_perf_context w)"
  shows "perf_end_milestone_labeled env m l w =
           (if enabled (config (g_perf_context w)) \<and> m < PERF_MILESTONE_COUNT \<and>
               milestone_active (g_perf_context w) ! m
            then w\<lparr>g_perf_context :=
                    (g_perf_context w)\<lparr>milestone_active :=
                       (milestone_active (g_perf_context w))[m := False]\<rparr>\<rparr>
            else w)"
  using assms by (simp add: perf_end_milestone_labeled_def Let_def)

lemma started_events_run:
  "\<exists>w'. perf_run (replicate n (env, Log_event (Some l) v c)) started_world = Inr w' \<and>
     enabled (config (g_perf_context w')) \<and> buffer_ok (g_perf_context w') \<and>
     log_capacity (g_perf_context w') = PERF_MAX_LOG_ENTRIES \<and>
     log_count (g_perf_context w') = min n PERF_MAX_LOG_ENTRIES"
  using run_events [of started_world n env l v c] by auto

text \<open>The two steps, taken one after the other, are the call.\<close>

lemma event_split:
  "perf_log_event_with_context env (Some l) v c w =
     (case event_reserve w of None \<Rightarrow> w | Some slot \<Rightarrow> event_commit env l v c slot w)"
  by (simp add: perf_log_event_with_context_def event_reserve_def event_commit_def Let_def)

lemma idle_upd [simp]: "idle(t := None) = idle"
  by (rule ext) (simp add: idle_def)

lemma overlapped_whole_call:
  assumes "calls t = (env, l, v, c)"
  shows "overlapped calls (t # t # sch) idle w
           = overlapped calls sch idle (perf_log_event_with_context env (Some l) v c w)"
proof (cases "event_reserve w")
  case None
  then show ?thesis by (simp add: event_split idle_def [of t])
next
  case (Some slot)
  then show ?thesis using assms by (simp add: event_split idle_def [of t])
qed

lemma overlapped_whole_calls:
  assumes "calls t = (env, l, v, c)"
    and "perf_run (replicate n (env, Log_event (Some l) v c)) w = Inr w'"
  shows "overlapped calls (concat (replicate n [t, t]) @ sch) idle w = overlapped calls sch idle w'"
  using assms(2)
proof (induction n arbitrary: w)
  case 0
  then show ?case by simp
next
  case (Suc n)
  from Suc.prems have "perf_run (replicate n (env, Log_event (Some l) v c))
      (perf_log_event_with_context env (Some l) v c w) = Inr w'" by simp
  from Suc.IH [OF this] show ?case
    using overlapped_whole_call [of calls t env l v c, OF assms(1)] by simp
qed

text \<open>
  Two threads that both make the test before either of them has incremented
  \<^verbatim>\<open>log_count\<close> both increment it.
\<close>

lemma overlapped_two:
  assumes "enabled (config (g_perf_context w))"
    and "log_count (g_perf_context w) < log_capacity (g_perf_context w)"
  shows "log_count (g_perf_context (overlapped example_calls [1, 2, 1, 2] idle w))
           = log_count (g_perf_context w) + 2"
    and "log_capacity (g_perf_context (overlapped example_calls [1, 2, 1, 2] idle w))
           = log_capacity (g_perf_context w)"
  using assms
  by (simp_all add: idle_def event_reserve_def event_commit_def example_calls_def Let_def)

subsection \<open>Registered threads\<close>

lemma register_thread_local:
  assumes "threads_on w" "0 \<le> active_threads (g_perf_context w)"
    "active_threads (g_perf_context w) < int PERF_MAX_THREADS"
  shows "\<exists>w'. perf_register_thread env w = Inr (active_threads (g_perf_context w), w') \<and>
           threads_on w' \<and>
           active_threads (g_perf_context w') = active_threads (g_perf_context w) + 1 \<and>
           tls_thread_id w' = (tls_thread_id w)(self env := active_threads (g_perf_context w))"
  using assms by (simp add: perf_register_thread_def Let_def threads_on_def)

lemma unregister_thread_local:
  "tls_thread_id (perf_unregister_thread env w) = tls_thread_id w"
  by (simp add: perf_unregister_thread_def Let_def)

lemma registered_calls:
  "registered live cs = Some live' \<Longrightarrow> set (map snd cs) \<subseteq> {Register_thread, Unregister_thread}"
  by (induction live cs rule: registered.induct) (auto split: if_splits list.splits)

lemma registered_range:
  "registered live cs = Some live' \<Longrightarrow>
   \<forall>i \<in> set (counter_ids (int (length live)) (map snd cs)). 0 \<le> i \<and> i < int PERF_MAX_THREADS"
proof (induction live cs rule: registered.induct)
  case (2 live env cs)
  then have "registered (self env # live) cs = Some live'" and "length live < PERF_MAX_THREADS"
    by (auto split: if_splits)
  with 2 show ?case by (auto simp add: add.commute split: if_splits)
next
  case (3 live env cs)
  then show ?case by (auto split: if_splits list.splits)
qed simp_all

text \<open>
  In such a run the counter is the number of registered threads, and the registered
  threads hold the ids \<open>0, 1, 2, ...\<close> in the order in which they registered.
\<close>

lemma registered_run:
  assumes "registered live cs = Some live'" and "threads_on w"
    and "active_threads (g_perf_context w) = int (length live)" and "distinct live"
    and "map (tls_thread_id w) (rev live) = map int [0..<length live]"
  shows "\<exists>w'. perf_run cs w = Inr w' \<and> threads_on w' \<and>
           active_threads (g_perf_context w') = int (length live') \<and> distinct live' \<and>
           map (tls_thread_id w') (rev live') = map int [0..<length live']"
  using assms
proof (induction live cs arbitrary: w rule: registered.induct)
  case (1 live)
  then show ?case by simp
next
  case (2 live env cs)
  from 2(2) have new: "self env \<notin> set live" and lt: "length live < PERF_MAX_THREADS"
    and r: "registered (self env # live) cs = Some live'"
    by (auto split: if_splits)
  from register_thread_local [of w env] 2(3,4) lt obtain w1 where
    s: "perf_register_thread env w = Inr (int (length live), w1)"
    and on: "threads_on w1"
    and k: "active_threads (g_perf_context w1) = int (length (self env # live))"
    and t: "tls_thread_id w1 = (tls_thread_id w)(self env := int (length live))"
    by auto
  have d: "distinct (self env # live)" using new 2(5) by simp
  have "map (tls_thread_id w1) (rev live) = map (tls_thread_id w) (rev live)"
    using new t by simp
  then have m: "map (tls_thread_id w1) (rev (self env # live)) = map int [0..<length (self env # live)]"
    using 2(6) t by simp
  from "2.IH" [OF _ r on k d m] new lt obtain w' where
    "perf_run cs w1 = Inr w'" "threads_on w'"
    "active_threads (g_perf_context w') = int (length live')" "distinct live'"
    "map (tls_thread_id w') (rev live') = map int [0..<length live']"
    by auto
  then show ?case using s by simp
next
  case (3 live env cs)
  from 3(2) obtain rest where l: "live = self env # rest" and r: "registered rest cs = Some live'"
    by (auto split: list.splits if_splits)
  let ?w1 = "perf_unregister_thread env w"
  have on: "threads_on ?w1" by (rule unregister_counter(1) [OF 3(3)])
  have k: "active_threads (g_perf_context ?w1) = int (length rest)"
    using unregister_counter(2) [OF 3(3)] 3(4) l by simp
  have d: "distinct rest" using 3(5) l by simp
  have m: "map (tls_thread_id ?w1) (rev rest) = map int [0..<length rest]"
    using 3(6) l by (simp add: unregister_thread_local)
  from "3.IH" [OF l _ r on k d m] obtain w' where
    "perf_run cs ?w1 = Inr w'" "threads_on w'"
    "active_threads (g_perf_context w') = int (length live')" "distinct live'"
    "map (tls_thread_id w') (rev live') = map int [0..<length live']"
    by auto
  then show ?case by simp
qed simp_all

section \<open>The claims\<close>

text \<open>
  C1. In every run after a successful initialisation, in which each call returns before
  the next one begins, the buffer holds at most its capacity of \<^verbatim>\<open>PERF_MAX_LOG_ENTRIES\<close>
  records. A publish attempt made while the buffer is full abandons the write and counts
  nothing: an event, an iteration and an algorithm step return the state unchanged, and
  the end of a milestone returns the state with nothing changed but the active flag of the
  milestone, which is cleared. The code keeps no counter of dropped records: the state
  after 10001 events is the state after 10000. The test of the record count and its
  increment are two steps: two events that overlap on a buffer of 9999 records both pass
  the test and leave a record count of 10001.
\<close>

theorem C1_buffer_bounded:
  assumes "perf_init_with_config env0 heap cfg w0 = (0, w)"
    and "perf_run cs w = Inr w'"
  shows "log_count (g_perf_context w') \<le> PERF_MAX_LOG_ENTRIES \<and>
         log_capacity (g_perf_context w') = PERF_MAX_LOG_ENTRIES \<and>
         length (records (g_perf_context w')) = log_count (g_perf_context w') \<and>
         (log_count (g_perf_context w') = PERF_MAX_LOG_ENTRIES \<longrightarrow>
            perf_log_event_with_context env1 l1 v1 c1 w' = w' \<and>
            perf_log_iteration env2 i2 x2 w' = w' \<and>
            perf_log_algorithm_step env3 a3 s3 x3 w' = w' \<and>
            perf_end_milestone_labeled env4 m4 l4 w' =
              (if enabled (config (g_perf_context w')) \<and> m4 < PERF_MILESTONE_COUNT \<and>
                  milestone_active (g_perf_context w') ! m4
               then w'\<lparr>g_perf_context :=
                       (g_perf_context w')\<lparr>milestone_active :=
                          (milestone_active (g_perf_context w'))[m4 := False]\<rparr>\<rparr>
               else w'))"
proof -
  from run_buffer_ok [OF assms(2) init_buffer_ok(1) [OF assms(1)]] init_buffer_ok(2) [OF assms(1)]
  have ok: "buffer_ok (g_perf_context w')"
    and cap: "log_capacity (g_perf_context w') = PERF_MAX_LOG_ENTRIES" by simp_all
  from ok cap have le: "log_count (g_perf_context w') \<le> PERF_MAX_LOG_ENTRIES"
    by (simp add: buffer_ok_def)
  have full: "\<not> log_count (g_perf_context w') < log_capacity (g_perf_context w')"
    if "log_count (g_perf_context w') = PERF_MAX_LOG_ENTRIES"
    using that cap by simp
  show ?thesis
    using le cap buffer_ok_records [OF ok] full_buffer_publish(1,2,3) [OF full]
      full_buffer_end [OF full] by simp
qed

theorem C1_buffer_bounded_witness:
  "\<exists>w'. perf_run (replicate 10100 (example_env, Log_event (Some ''d'') 1 None) @
                   [(example_env, Start_milestone 0 None)]) started_world = Inr w' \<and>
     log_count (g_perf_context w') = PERF_MAX_LOG_ENTRIES \<and>
     length (records (g_perf_context w')) = 10000 \<and>
     perf_log_event_with_context example_env (Some ''d'') 1 None w' = w' \<and>
     milestone_active (g_perf_context w') ! 0 \<and>
     perf_end_milestone_labeled example_env 0 None w' =
       w'\<lparr>g_perf_context :=
            (g_perf_context w')\<lparr>milestone_active := (milestone_active (g_perf_context w'))[0 := False]\<rparr>\<rparr>"
proof -
  let ?ev = "(example_env, Log_event (Some ''d'') 1 None)"
  from started_events_run [of 10100 example_env "''d''" 1 None] obtain w1 where
    r1: "perf_run (replicate 10100 ?ev) started_world = Inr w1"
    and en1: "enabled (config (g_perf_context w1))"
    and ok1: "buffer_ok (g_perf_context w1)"
    and f1: "log_count (g_perf_context w1) = PERF_MAX_LOG_ENTRIES"
    by (auto simp add: PERF_MAX_LOG_ENTRIES_def)
  let ?w = "perf_start_milestone_labeled example_env 0 None w1"
  have r: "perf_run (replicate 10100 ?ev @ [(example_env, Start_milestone 0 None)]) started_world
             = Inr ?w"
    using r1 by (simp only: perf_run_append) simp
  have f: "log_count (g_perf_context ?w) = PERF_MAX_LOG_ENTRIES"
    using f1 by (simp add: start_frame)
  have en: "enabled (config (g_perf_context ?w))"
    using en1 by (simp add: start_frame)
  have wf: "well_formed (g_perf_context w1)" using ok1 by (simp add: buffer_ok_def)
  have act: "milestone_active (g_perf_context ?w) ! 0"
    by (rule start_fields(2) [OF en1 _ wf]) (simp add: PERF_MILESTONE_COUNT_def)
  note t = C1_buffer_bounded [OF init_started r, of example_env "Some ''d''" 1 None
      _ _ _ _ _ _ _ example_env 0 None]
  from t f have e: "perf_log_event_with_context example_env (Some ''d'') 1 None ?w = ?w" by blast
  from t f have n: "length (records (g_perf_context ?w)) = 10000"
    by (simp add: PERF_MAX_LOG_ENTRIES_def)
  from t f have "perf_end_milestone_labeled example_env 0 None ?w =
      (if enabled (config (g_perf_context ?w)) \<and> 0 < PERF_MILESTONE_COUNT \<and>
          milestone_active (g_perf_context ?w) ! 0
       then ?w\<lparr>g_perf_context :=
               (g_perf_context ?w)\<lparr>milestone_active := (milestone_active (g_perf_context ?w))[0 := False]\<rparr>\<rparr>
       else ?w)" by blast
  with en act have d: "perf_end_milestone_labeled example_env 0 None ?w =
      ?w\<lparr>g_perf_context :=
           (g_perf_context ?w)\<lparr>milestone_active := (milestone_active (g_perf_context ?w))[0 := False]\<rparr>\<rparr>"
    by (simp add: PERF_MILESTONE_COUNT_def)
  show ?thesis using r f n e act d by blast
qed

theorem C1_counterexample:
  "perf_run (replicate 10001 (example_env, Log_event (Some ''d'') 1 None)) started_world
     = perf_run (replicate 10000 (example_env, Log_event (Some ''d'') 1 None)) started_world \<and>
   log_count (g_perf_context
      (overlapped example_calls (concat (replicate 9999 [0, 0]) @ [1, 2, 1, 2]) idle started_world))
     = 10001 \<and>
   log_capacity (g_perf_context
      (overlapped example_calls (concat (replicate 9999 [0, 0]) @ [1, 2, 1, 2]) idle started_world))
     = 10000"
proof -
  let ?x = "(example_env, Log_event (Some ''d'') 1 None)"
  from started_full_run [of 10000] obtain w' where
    r: "perf_run (replicate 10000 ?x) started_world = Inr w'"
    and f: "log_count (g_perf_context w') = PERF_MAX_LOG_ENTRIES"
    and c: "log_capacity (g_perf_context w') = PERF_MAX_LOG_ENTRIES"
    by (auto simp add: PERF_MAX_LOG_ENTRIES_def)
  have full: "\<not> log_count (g_perf_context w') < log_capacity (g_perf_context w')"
    using f c by simp
  have "replicate (10000 + 1) ?x = replicate 10000 ?x @ replicate 1 ?x"
    by (rule replicate_add)
  then have "replicate 10001 ?x = replicate 10000 ?x @ [?x]" by simp
  then have "perf_run (replicate 10001 ?x) started_world = Inr w'"
    using r full_buffer_publish(1) [OF full] by (simp only: perf_run_append) simp
  then have a: "perf_run (replicate 10001 ?x) started_world = perf_run (replicate 10000 ?x) started_world"
    using r by simp
  from started_events_run [of 9999 "thread_env 0" "''d''" 1 None] obtain w9 where
    r9: "perf_run (replicate 9999 (thread_env 0, Log_event (Some ''d'') 1 None)) started_world = Inr w9"
    and en9: "enabled (config (g_perf_context w9))"
    and c9: "log_capacity (g_perf_context w9) = PERF_MAX_LOG_ENTRIES"
    and n9: "log_count (g_perf_context w9) = 9999"
    by (auto simp add: PERF_MAX_LOG_ENTRIES_def)
  have "example_calls 0 = (thread_env 0, ''d'', 1, None)" by (simp add: example_calls_def)
  from overlapped_whole_calls [where calls = example_calls and t = 0 and sch = "[1, 2, 1, 2]", OF this r9]
  have "overlapped example_calls (concat (replicate 9999 [0, 0]) @ [1, 2, 1, 2]) idle started_world
          = overlapped example_calls [1, 2, 1, 2] idle w9" .
  moreover have "log_count (g_perf_context (overlapped example_calls [1, 2, 1, 2] idle w9)) = 10001"
    using overlapped_two(1) [OF en9] c9 n9 by (simp add: PERF_MAX_LOG_ENTRIES_def)
  moreover have "log_capacity (g_perf_context (overlapped example_calls [1, 2, 1, 2] idle w9)) = 10000"
    using overlapped_two(2) [OF en9] c9 n9 by (simp add: PERF_MAX_LOG_ENTRIES_def)
  ultimately show ?thesis using a by simp
qed

text \<open>
  C2. With \<^verbatim>\<open>PERF_MAX_THREADS\<close> threads live, the code of \<^verbatim>\<open>perf_register_thread\<close> does
  not return \<open>-1\<close>: it has no test of the cap, takes the id 256 and writes
  \<^verbatim>\<open>thread_data[256]\<close>, outside the array. \<^verbatim>\<open>perf_get_thread_data\<close> does test the bound
  and gives no slot for this id.
\<close>

theorem C2_register_beyond_cap:
  assumes "enabled (config (g_perf_context w))" and "track_threads (config (g_perf_context w))"
    and "active_threads (g_perf_context w) = int PERF_MAX_THREADS"
  shows "perf_register_thread env w = Inl (Thread_slot_out_of_bounds 256) \<and>
         perf_register_thread env w \<noteq> Inr (- 1, w) \<and>
         perf_get_thread_data 256 (g_perf_context w) = None"
  using assms
  by (simp add: perf_register_thread_def perf_get_thread_data_def Let_def PERF_MAX_THREADS_def)

theorem C2_register_beyond_cap_witness:
  "perf_run (replicate 257 (example_env, Register_thread)) started_world
     = Inl (Thread_slot_out_of_bounds 256)"
proof -
  have "\<exists>w'. perf_run (replicate 256 (example_env, Register_thread)) started_world = Inr w' \<and>
          threads_on w' \<and>
          active_threads (g_perf_context w') = active_threads (g_perf_context started_world) + int 256"
    by (rule run_registers) (simp_all add: PERF_MAX_THREADS_def)
  then obtain w' where w': "perf_run (replicate 256 (example_env, Register_thread)) started_world = Inr w'"
    "threads_on w'" "active_threads (g_perf_context w') = int PERF_MAX_THREADS"
    by (auto simp add: PERF_MAX_THREADS_def)
  from w'(2) have en: "enabled (config (g_perf_context w'))" "track_threads (config (g_perf_context w'))"
    by (simp_all add: threads_on_def)
  have f: "perf_register_thread example_env w' = Inl (Thread_slot_out_of_bounds 256)"
    using C2_register_beyond_cap [OF en w'(3), of example_env] by simp
  have "replicate (256 + 1) (example_env, Register_thread)
          = replicate 256 (example_env, Register_thread) @ replicate 1 (example_env, Register_thread)"
    by (rule replicate_add)
  then have "replicate 257 (example_env, Register_thread)
          = replicate 256 (example_env, Register_thread) @ [(example_env, Register_thread)]"
    by simp
  then show ?thesis using w'(1) f by (simp only: perf_run_append) simp
qed

text \<open>
  C3. With \<open>enabled = false\<close> in the configuration, none of the recording calls (start
  and end of a milestone, event, iteration, algorithm step) publishes a record: each of
  them returns the state it was given, so the record count and the buffer are unchanged.
\<close>

theorem C3_disabled_publishes_nothing:
  assumes "\<not> enabled (config (g_perf_context w))"
  shows "perf_start_milestone_labeled env1 m1 l1 w = w \<and>
         perf_end_milestone_labeled env2 m2 l2 w = w \<and>
         perf_log_event_with_context env3 l3 v3 c3 w = w \<and>
         perf_log_iteration env4 i4 x4 w = w \<and>
         perf_log_algorithm_step env5 a5 s5 x5 w = w \<and>
         perf_start_milestone env6 m6 w = w \<and>
         perf_end_milestone env7 m7 w = w \<and>
         perf_log_event env8 l8 v8 w = w \<and>
         log_count (g_perf_context (perf_end_milestone_labeled env2 m2 l2 w))
           = log_count (g_perf_context w) \<and>
         log_count (g_perf_context (perf_log_event_with_context env3 l3 v3 c3 w))
           = log_count (g_perf_context w)"
  using assms
  by (simp add: perf_start_milestone_labeled_def perf_end_milestone_labeled_def
      perf_log_event_with_context_def perf_log_iteration_def perf_log_algorithm_step_def
      perf_start_milestone_def perf_end_milestone_def perf_log_event_def
      Let_def split: option.splits)

theorem C3_disabled_publishes_nothing_witness:
  "\<not> enabled (config (g_perf_context (perf_set_enabled False started_world))) \<and>
   perf_log_event_with_context example_env (Some ''d'') 1 None (perf_set_enabled False started_world)
     = perf_set_enabled False started_world \<and>
   perf_end_milestone_labeled example_env 19 None (perf_set_enabled False started_world)
     = perf_set_enabled False started_world"
proof -
  have h: "\<not> enabled (config (g_perf_context (perf_set_enabled False started_world)))"
    by (simp add: perf_set_enabled_def)
  show ?thesis using h C3_disabled_publishes_nothing [OF h] by simp
qed

text \<open>
  C4. For a milestone kind \<open>m\<close>: \<^verbatim>\<open>end(m)\<close> while no start of \<open>m\<close> is active returns the
  state unchanged (no record, no other effect); a second \<^verbatim>\<open>start(m)\<close> before the end
  leaves the same state as the second start alone would, so only its timestamp is kept,
  and the following \<^verbatim>\<open>end(m)\<close> publishes one record of kind \<open>m\<close> whose duration is
  measured from the second start.
\<close>

theorem C4_unbalanced_start_end:
  assumes "m < PERF_MILESTONE_COUNT" and "well_formed (g_perf_context w)"
  shows "(\<not> milestone_active (g_perf_context w) ! m \<longrightarrow> perf_end_milestone_labeled env m l w = w) \<and>
         perf_start_milestone_labeled env2 m l2 (perf_start_milestone_labeled env1 m l1 w)
           = perf_start_milestone_labeled env2 m l2 w \<and>
         (enabled (config (g_perf_context w)) \<longrightarrow>
            milestone_starts (g_perf_context
              (perf_start_milestone_labeled env2 m l2 (perf_start_milestone_labeled env1 m l1 w))) ! m
              = perf_get_timestamp env2) \<and>
         (enabled (config (g_perf_context w)) \<and>
          log_count (g_perf_context w) < log_capacity (g_perf_context w) \<longrightarrow>
            log_count (g_perf_context (perf_end_milestone_labeled env3 m l3
              (perf_start_milestone_labeled env2 m l2 (perf_start_milestone_labeled env1 m l1 w))))
              = log_count (g_perf_context w) + 1 \<and>
            milestone (log_entries (g_perf_context (perf_end_milestone_labeled env3 m l3
              (perf_start_milestone_labeled env2 m l2 (perf_start_milestone_labeled env1 m l1 w))))
              ! log_count (g_perf_context w)) = m \<and>
            duration_ms (log_entries (g_perf_context (perf_end_milestone_labeled env3 m l3
              (perf_start_milestone_labeled env2 m l2 (perf_start_milestone_labeled env1 m l1 w))))
              ! log_count (g_perf_context w))
              = perf_timestamp_diff_ms (perf_get_timestamp env2) (perf_get_timestamp env3))"
proof -
  let ?s = "perf_start_milestone_labeled env2 m l2 w"
  have a: "\<not> milestone_active (g_perf_context w) ! m \<longrightarrow> perf_end_milestone_labeled env m l w = w"
    by (simp add: end_inactive)
  have b: "perf_start_milestone_labeled env2 m l2 (perf_start_milestone_labeled env1 m l1 w) = ?s"
    by (rule start_start)
  have c: "enabled (config (g_perf_context w)) \<longrightarrow>
      milestone_starts (g_perf_context ?s) ! m = perf_get_timestamp env2"
    using assms by (simp add: start_fields)
  have d: "log_count (g_perf_context (perf_end_milestone_labeled env3 m l3 ?s))
              = log_count (g_perf_context w) + 1 \<and>
           milestone (log_entries (g_perf_context (perf_end_milestone_labeled env3 m l3 ?s))
              ! log_count (g_perf_context w)) = m \<and>
           duration_ms (log_entries (g_perf_context (perf_end_milestone_labeled env3 m l3 ?s))
              ! log_count (g_perf_context w))
              = perf_timestamp_diff_ms (perf_get_timestamp env2) (perf_get_timestamp env3)"
    if en: "enabled (config (g_perf_context w))"
      and lt: "log_count (g_perf_context w) < log_capacity (g_perf_context w)"
  proof -
    have 1: "enabled (config (g_perf_context ?s))" using en by (simp add: start_frame)
    have 2: "milestone_active (g_perf_context ?s) ! m" using en assms by (simp add: start_fields)
    have 3: "log_count (g_perf_context ?s) < log_capacity (g_perf_context ?s)"
      using lt by (simp add: start_frame)
    have 4: "length (log_entries (g_perf_context ?s)) = log_capacity (g_perf_context ?s)"
      using assms by (simp add: start_frame well_formed_def)
    have 5: "milestone_starts (g_perf_context ?s) ! m = perf_get_timestamp env2"
      using en assms by (simp add: start_fields)
    have 6: "log_count (g_perf_context ?s) = log_count (g_perf_context w)"
      by (simp add: start_frame)
    show ?thesis
      using end_active_record [OF 1 assms(1) 2 3 4, of env3 l3] 5 6 by simp
  qed
  show ?thesis
    using a c d by (simp only: b) blast
qed

theorem C4_unbalanced_start_end_witness:
  "(19::nat) < PERF_MILESTONE_COUNT \<and> well_formed (g_perf_context started_world) \<and>
   \<not> milestone_active (g_perf_context started_world) ! 19 \<and>
   perf_end_milestone_labeled example_env 19 None started_world = started_world \<and>
   enabled (config (g_perf_context started_world)) \<and>
   log_count (g_perf_context started_world) < log_capacity (g_perf_context started_world) \<and>
   log_count (g_perf_context (perf_end_milestone_labeled (clock_at 107) 19 None
     (perf_start_milestone_labeled (clock_at 105) 19 None
       (perf_start_milestone_labeled (clock_at 100) 19 None started_world)))) = 1 \<and>
   duration_ms (log_entries (g_perf_context (perf_end_milestone_labeled (clock_at 107) 19 None
     (perf_start_milestone_labeled (clock_at 105) 19 None
       (perf_start_milestone_labeled (clock_at 100) 19 None started_world)))) ! 0) = 2000"
proof -
  have h1: "(19::nat) < PERF_MILESTONE_COUNT" by (simp add: PERF_MILESTONE_COUNT_def)
  have h2: "well_formed (g_perf_context started_world)" by simp
  have h3: "\<not> milestone_active (g_perf_context started_world) ! 19"
    by (simp add: PERF_MILESTONE_COUNT_def)
  have h4: "log_count (g_perf_context started_world) < log_capacity (g_perf_context started_world)"
    by (simp add: PERF_MAX_LOG_ENTRIES_def)
  have d: "perf_timestamp_diff_ms (perf_get_timestamp (clock_at 105)) (perf_get_timestamp (clock_at 107)) = 2000"
    by (simp add: perf_timestamp_diff_ms_def perf_get_timestamp_def clock_at_def example_env_def)
  let ?w3 = "perf_end_milestone_labeled (clock_at 107) 19 None
     (perf_start_milestone_labeled (clock_at 105) 19 None
       (perf_start_milestone_labeled (clock_at 100) 19 None started_world))"
  note t = C4_unbalanced_start_end [OF h1 h2, of example_env None "clock_at 105" None "clock_at 100" None "clock_at 107" None]
  have en: "enabled (config (g_perf_context started_world))" by simp
  from t h3 have e0: "perf_end_milestone_labeled example_env 19 None started_world = started_world"
    by blast
  from t en h4 have e1: "log_count (g_perf_context ?w3) = log_count (g_perf_context started_world) + 1"
    by blast
  from t en h4 have e2: "duration_ms (log_entries (g_perf_context ?w3) ! log_count (g_perf_context started_world))
      = perf_timestamp_diff_ms (perf_get_timestamp (clock_at 105)) (perf_get_timestamp (clock_at 107))"
    by blast
  have f1: "log_count (g_perf_context ?w3) = 1" using e1 by simp
  have f2: "duration_ms (log_entries (g_perf_context ?w3) ! 0) = 2000" using e2 d by simp
  show ?thesis
    using h1 h2 h3 h4 en e0 f1 f2 by blast
qed

text \<open>
  C5. In a run after a successful initialisation in which the clock does not go back and
  every value passed to an event or an algorithm step is at least zero, every record of
  the buffer has a duration of at least zero. An event stores the value it is given as
  the duration of its record, whatever its sign: the event with value \<open>-1\<close> publishes a
  record with duration \<open>-1\<close>.
\<close>

theorem C5_durations_nonneg:
  assumes "perf_init_with_config env0 heap cfg w0 = (0, w)"
    and "clock_monotone t cs"
    and "\<forall>c \<in> set (map snd cs). value_nonneg c"
    and "perf_run cs w = Inr w'"
  shows "(\<forall>e \<in> set (records (g_perf_context w')). 0 \<le> duration_ms e) \<and>
         (enabled (config (g_perf_context w')) \<and>
          log_count (g_perf_context w') < log_capacity (g_perf_context w') \<longrightarrow>
            length (records (g_perf_context (perf_log_event_with_context env (Some l) v c w')))
              = length (records (g_perf_context w')) + 1 \<and>
            duration_ms (last (records (g_perf_context (perf_log_event_with_context env (Some l) v c w'))))
              = v)"
proof -
  have "durations_nonneg (g_perf_context w')"
    by (rule run_run_inv [OF init_run_inv [OF assms(1)] assms(2,3,4)])
  then have a: "\<forall>e \<in> set (records (g_perf_context w')). 0 \<le> duration_ms e"
    by (simp add: durations_nonneg_def)
  from run_buffer_ok [OF assms(4) init_buffer_ok(1) [OF assms(1)]]
  have wf: "well_formed (g_perf_context w')" by (simp add: buffer_ok_def)
  have b: "length (records (g_perf_context (perf_log_event_with_context env (Some l) v c w')))
              = length (records (g_perf_context w')) + 1 \<and>
            duration_ms (last (records (g_perf_context (perf_log_event_with_context env (Some l) v c w'))))
              = v"
    if "enabled (config (g_perf_context w'))"
      "log_count (g_perf_context w') < log_capacity (g_perf_context w')"
    using event_records(1) [OF that wf, of env l v c] by simp
  show ?thesis using a b by blast
qed

theorem C5_durations_nonneg_witness:
  "clock_monotone (clock_now (clock_at 100))
     [(clock_at 100, Start_milestone 19 None), (clock_at 107, End_milestone 19 None)] \<and>
   value_nonneg (Start_milestone 19 None) \<and> value_nonneg (End_milestone 19 None) \<and>
   perf_run [(clock_at 100, Start_milestone 19 None), (clock_at 107, End_milestone 19 None)] started_world
     = Inr (perf_end_milestone_labeled (clock_at 107) 19 None
              (perf_start_milestone_labeled (clock_at 100) 19 None started_world)) \<and>
   log_count (g_perf_context (perf_end_milestone_labeled (clock_at 107) 19 None
              (perf_start_milestone_labeled (clock_at 100) 19 None started_world))) = 1 \<and>
   0 \<le> duration_ms (records (g_perf_context (perf_end_milestone_labeled (clock_at 107) 19 None
              (perf_start_milestone_labeled (clock_at 100) 19 None started_world))) ! 0)"
proof -
  let ?cs = "[(clock_at 100, Start_milestone 19 None), (clock_at 107, End_milestone 19 None)]"
  let ?s = "perf_start_milestone_labeled (clock_at 100) 19 None started_world"
  let ?w = "perf_end_milestone_labeled (clock_at 107) 19 None ?s"
  have h2: "clock_monotone (clock_now (clock_at 100)) ?cs"
    by (simp add: clock_at_def timespec_valid_def timespec_le_def)
  have h3: "\<forall>c \<in> set (map snd ?cs). value_nonneg c" by simp
  have h4: "perf_run ?cs started_world = Inr ?w" by simp
  have k: "(19::nat) < PERF_MILESTONE_COUNT" by (simp add: PERF_MILESTONE_COUNT_def)
  have s1: "enabled (config (g_perf_context ?s))" by (simp add: start_frame)
  have s2: "milestone_active (g_perf_context ?s) ! 19"
    using start_fields(2) [OF started_fields(1) k started_well_formed] by simp
  have s3: "log_count (g_perf_context ?s) < log_capacity (g_perf_context ?s)"
    using started_not_full by (simp add: start_frame)
  have s4: "length (log_entries (g_perf_context ?s)) = log_capacity (g_perf_context ?s)"
    by (simp add: start_frame)
  have cnt: "log_count (g_perf_context ?w) = 1"
    using end_active_record(1) [OF s1 k s2 s3 s4, of "clock_at 107" None] by (simp add: start_frame)
  note t = C5_durations_nonneg [OF init_started h2 h3 h4]
  from run_buffer_ok [OF h4 started_buffer_ok] have "buffer_ok (g_perf_context ?w)" by simp
  from buffer_ok_records [OF this] cnt have "length (records (g_perf_context ?w)) = 1" by simp
  then have "records (g_perf_context ?w) ! 0 \<in> set (records (g_perf_context ?w))" by simp
  with t have d: "0 \<le> duration_ms (records (g_perf_context ?w) ! 0)" by blast
  show ?thesis using h2 h4 cnt d by simp
qed

theorem C5_counterexample:
  "log_count (g_perf_context (perf_log_event example_env (Some ''d'') (- 1) started_world)) = 1 \<and>
   duration_ms (log_entries (g_perf_context
     (perf_log_event example_env (Some ''d'') (- 1) started_world)) ! 0) = - 1"
  using started_not_full
  by (simp add: perf_log_event_def perf_log_event_with_context_def Let_def)

text \<open>
  C6. When enabled and the buffer is not full, \<^verbatim>\<open>perf_log_iteration(i, x)\<close> appends exactly
  one record, of kind \<^verbatim>\<open>CLUSTERING_ITERATION\<close>, with iteration number \<open>i\<close>, convergence
  metric \<open>x\<close>, duration zero, the label \<open>iteration_\<close> followed by \<open>i\<close> in decimal, and as
  context the first 63 characters of \<open>convergence=\<close> followed by \<open>x\<close> with six decimals.
  For \<open>x = 2 ^ 200\<close> that text has 80 characters, and the context is cut to 63.
\<close>

theorem C6_iteration_record:
  assumes "enabled (config (g_perf_context w))"
    and "log_count (g_perf_context w) < log_capacity (g_perf_context w)"
    and "well_formed (g_perf_context w)"
    and "- (2 ^ 31) \<le> i" and "i < 2 ^ 31"
    and "w' = perf_log_iteration env i x w"
    and "r = log_entries (g_perf_context w') ! log_count (g_perf_context w)"
  shows "records (g_perf_context w') = records (g_perf_context w) @ [r] \<and>
         log_count (g_perf_context w') = log_count (g_perf_context w) + 1 \<and>
         milestone r = PERF_MILESTONE_CLUSTERING_ITERATION \<and>
         iteration_number r = i \<and>
         convergence_metric r = x \<and>
         duration_ms r = 0 \<and>
         label r = ''iteration_'' @ printf_d i \<and>
         context_str r = take 63 (''convergence='' @ printf_f 6 x)"
  using iteration_record [OF assms(1,2,3), of env i x] iteration_label_fits [OF assms(4,5)]
  by (simp add: assms(6,7) bounded_label_def PERF_MAX_LABEL_LEN_def)

theorem C6_iteration_record_witness:
  "enabled (config (g_perf_context started_world)) \<and>
   log_count (g_perf_context started_world) < log_capacity (g_perf_context started_world) \<and>
   well_formed (g_perf_context started_world) \<and>
   - (2 ^ 31) \<le> (3::int) \<and> (3::int) < 2 ^ 31 \<and>
   records (g_perf_context (perf_log_iteration example_env 3 (42 / 100) started_world))
     = [log_entries (g_perf_context (perf_log_iteration example_env 3 (42 / 100) started_world)) ! 0] \<and>
   milestone (log_entries (g_perf_context (perf_log_iteration example_env 3 (42 / 100) started_world)) ! 0)
     = PERF_MILESTONE_CLUSTERING_ITERATION \<and>
   iteration_number (log_entries (g_perf_context (perf_log_iteration example_env 3 (42 / 100) started_world)) ! 0)
     = 3 \<and>
   convergence_metric (log_entries (g_perf_context (perf_log_iteration example_env 3 (42 / 100) started_world)) ! 0)
     = 42 / 100 \<and>
   label (log_entries (g_perf_context (perf_log_iteration example_env 3 (42 / 100) started_world)) ! 0)
     = ''iteration_3'' \<and>
   context_str (log_entries (g_perf_context (perf_log_iteration example_env 3 (42 / 100) started_world)) ! 0)
     = ''convergence=0.420000''"
proof -
  have h1: "enabled (config (g_perf_context started_world))" by simp
  have h2: "log_count (g_perf_context started_world) < log_capacity (g_perf_context started_world)"
    by (simp add: PERF_MAX_LOG_ENTRIES_def)
  have h3: "well_formed (g_perf_context started_world)" by simp
  have h4: "- (2 ^ 31) \<le> (3::int)" by simp
  have h5: "(3::int) < 2 ^ 31" by simp
  have e: "records (g_perf_context started_world) = []" by (simp add: records_def)
  note t = C6_iteration_record [OF h1 h2 h3 h4 h5 refl refl, of example_env "42 / 100"]
  let ?r = "log_entries (g_perf_context (perf_log_iteration example_env 3 (42 / 100) started_world)) ! 0"
  have r1: "records (g_perf_context (perf_log_iteration example_env 3 (42 / 100) started_world)) = [?r]"
    using t e by simp
  have r2: "milestone ?r = PERF_MILESTONE_CLUSTERING_ITERATION" using t by simp
  have r3: "iteration_number ?r = 3" using t by simp
  have r4: "convergence_metric ?r = 42 / 100" using t by simp
  have "label ?r = ''iteration_'' @ printf_d 3" using t by simp
  then have r5: "label ?r = ''iteration_3''" by (simp only: printf_examples) simp
  have "log_count (g_perf_context started_world) = 0" by simp
  with t have "context_str ?r = take 63 (''convergence='' @ printf_f 6 (42 / 100))" by metis
  then have r6: "context_str ?r = ''convergence=0.420000''" by (simp only: printf_examples) simp
  show ?thesis
    using h1 h2 h3 h4 h5 r1 r2 r3 r4 r5 r6 by blast
qed

theorem C6_counterexample:
  "length (context_str (log_entries (g_perf_context
      (perf_log_iteration example_env 3 (2 ^ 200) started_world)) ! 0)) = 63 \<and>
   length (''convergence='' @ printf_f 6 (2 ^ 200)) = 80 \<and>
   length (''convergence='' @ show_nat (2 ^ 200)) = 73"
proof -
  have b: "(10::nat) ^ 60 \<le> 2 ^ 200" "(2::nat) ^ 200 < 10 ^ Suc 60" by simp_all
  have n: "length (show_nat (2 ^ 200)) = 61"
    using show_nat_length_eq [OF b] by simp
  have r: "round_half_even (\<bar>2 ^ 200\<bar> * 10 ^ 6) = 2 ^ 200 * 10 ^ 6"
    by (simp add: round_half_even_def Let_def)
  have z: "show_nat 0 = ''0''" by (simp add: show_nat.simps digit_char_def)
  have f: "length (printf_f 6 (2 ^ 200)) = 68"
    unfolding printf_f_def Let_def r using n by (simp add: pad_zero_def z)
  have h2: "log_count (g_perf_context started_world) < log_capacity (g_perf_context started_world)"
    by (simp add: PERF_MAX_LOG_ENTRIES_def)
  have c: "context_str (log_entries (g_perf_context
      (perf_log_iteration example_env 3 (2 ^ 200) started_world)) ! 0)
      = bounded_label (''convergence='' @ printf_f 6 (2 ^ 200))"
    using iteration_record(3) [OF _ h2, of example_env 3 "2 ^ 200"] by simp
  have c': "length (context_str (log_entries (g_perf_context
      (perf_log_iteration example_env 3 (2 ^ 200) started_world)) ! 0))
      = min (length (''convergence='' @ printf_f 6 (2 ^ 200))) (PERF_MAX_LABEL_LEN - 1)"
    by (simp only: c bounded_label_def length_take)
  have f': "length (''convergence='' @ printf_f 6 (2 ^ 200)) = 80"
    by (simp only: length_append f) simp
  have n': "length (''convergence='' @ show_nat (2 ^ 200)) = 73"
    by (simp only: length_append n) simp
  have "length (context_str (log_entries (g_perf_context
      (perf_log_iteration example_env 3 (2 ^ 200) started_world)) ! 0)) = 63"
    by (simp only: c' f') (simp add: PERF_MAX_LABEL_LEN_def)
  then show ?thesis using f' n' by blast
qed

text \<open>
  C7. With recording enabled and \<open>N\<close> records in the buffer, \<^verbatim>\<open>perf_export_csv\<close> leaves in
  the opened file the header line followed by one row per record, in order, and restores
  the context (so the previous output stream and format) and every other stream. The file
  has \<open>N + 1\<close> lines when no label and no context of a record contains a newline; the
  rows are written without quoting, so a newline in a label adds a line. When the file
  cannot be opened the state is unchanged and nothing is written.
\<close>

theorem C7_export_csv:
  assumes "fopen_result env = Some f"
    and "enabled (config (g_perf_context w))"
    and "log_count (g_perf_context w) \<le> length (log_entries (g_perf_context w))"
    and "w' = perf_export_csv env (Some name) w"
  shows "streams w' f = csv_header @ concat (map csv_row (records (g_perf_context w))) \<and>
         length (records (g_perf_context w)) = log_count (g_perf_context w) \<and>
         ((\<forall>e \<in> set (records (g_perf_context w)). single_line e) \<longrightarrow>
            line_count (streams w' f) = log_count (g_perf_context w) + 1) \<and>
         g_perf_context w' = g_perf_context w \<and>
         output_file (config (g_perf_context w')) = output_file (config (g_perf_context w)) \<and>
         output_format (config (g_perf_context w')) = output_format (config (g_perf_context w)) \<and>
         (\<forall>f'. f' \<noteq> f \<longrightarrow> streams w' f' = streams w f') \<and>
         (fopen_result env' = None \<longrightarrow> perf_export_csv env' (Some name) w = w)"
proof -
  have s: "streams w' = (streams w)(f := csv_header @ concat (map csv_row (records (g_perf_context w))))"
    using export_streams [OF assms(1,2)] assms(4) by simp
  have n: "length (records (g_perf_context w)) = log_count (g_perf_context w)"
    using assms(3) by (simp add: records_def)
  have l: "line_count (streams w' f) = log_count (g_perf_context w) + 1"
    if "\<forall>e \<in> set (records (g_perf_context w)). single_line e"
    using line_count_rows [OF that] n by (simp add: s line_count_csv_header)
  have g: "g_perf_context w' = g_perf_context w" using assms(4) by simp
  show ?thesis using s n l g export_open_fails [of env' name w] by simp
qed

theorem C7_export_csv_witness:
  "fopen_result example_env = Some (File_stream 0) \<and>
   enabled (config (g_perf_context (perf_log_event example_env (Some ''d'') (5 / 4) started_world))) \<and>
   log_count (g_perf_context (perf_log_event example_env (Some ''d'') (5 / 4) started_world)) = 1 \<and>
   streams (perf_export_csv example_env (Some ''out.csv'')
      (perf_log_event example_env (Some ''d'') (5 / 4) started_world)) (File_stream 0)
     = csv_header @ ''100.000000500,USER_1,1.250,0,0,0,7,0.500000,0.00,d,'' @ [CHR 0x0A] \<and>
   line_count (streams (perf_export_csv example_env (Some ''out.csv'')
      (perf_log_event example_env (Some ''d'') (5 / 4) started_world)) (File_stream 0)) = 2"
proof -
  let ?w = "perf_log_event example_env (Some ''d'') (5 / 4) started_world"
  let ?E = "stale_entry\<lparr>milestone := PERF_MILESTONE_USER_1, timestamp := perf_get_timestamp example_env,
              duration_ms := 5 / 4, thread_count := 0, label := bounded_label ''d'',
              context_str := bounded_label []\<rparr>"
  note ev = event_records [OF started_fields(1) started_not_full started_well_formed,
      of example_env "''d''" "5 / 4" "Some []"]
  have rec: "records (g_perf_context ?w) = [?E]"
    using ev(1) by (simp add: perf_log_event_def started_first_slot)
  have h1: "fopen_result example_env = Some (File_stream 0)" by (simp add: example_env_def)
  have h2: "enabled (config (g_perf_context ?w))" using ev(3) by (simp add: perf_log_event_def)
  have cnt: "log_count (g_perf_context ?w) = 1" using ev(2) by (simp add: perf_log_event_def)
  have h3: "log_count (g_perf_context ?w) \<le> length (log_entries (g_perf_context ?w))"
    using ev(4) cnt by (simp add: perf_log_event_def PERF_MAX_LOG_ENTRIES_def)
  have row: "csv_row ?E = ''100.000000500,USER_1,1.250,0,0,0,7,0.500000,0.00,d,'' @ [CHR 0x0A]"
    unfolding csv_row_def printf_f_def printf_d_def printf_09ld_def round_half_even_def Let_def
      pad_zero_def perf_milestone_name_def
    by (simp add: stale_entry_def perf_get_timestamp_def example_env_def zero_memory_def zero_cpu_def
        bounded_label_def PERF_MAX_LABEL_LEN_def show_nat.simps digit_char_def
        replicate_numeral_unfold PERF_MILESTONE_USER_1_def PERF_MILESTONE_COUNT_def milestone_names_def)
  have sl: "\<forall>e \<in> set (records (g_perf_context ?w)). single_line e"
    by (simp add: rec single_line_def bounded_label_def PERF_MAX_LABEL_LEN_def)
  note t = C7_export_csv [OF h1 h2 h3 refl, of "''out.csv''" example_env]
  from t have "streams (perf_export_csv example_env (Some ''out.csv'') ?w) (File_stream 0)
      = csv_header @ concat (map csv_row (records (g_perf_context ?w)))" by blast
  then have r1: "streams (perf_export_csv example_env (Some ''out.csv'') ?w) (File_stream 0)
      = csv_header @ ''100.000000500,USER_1,1.250,0,0,0,7,0.500000,0.00,d,'' @ [CHR 0x0A]"
    by (simp add: rec row)
  from t sl have "line_count (streams (perf_export_csv example_env (Some ''out.csv'') ?w) (File_stream 0))
      = log_count (g_perf_context ?w) + 1" by blast
  then have r2: "line_count (streams (perf_export_csv example_env (Some ''out.csv'') ?w) (File_stream 0)) = 2"
    by (simp only: cnt)
  show ?thesis using h1 h2 cnt r1 r2 by blast
qed

theorem C7_counterexample:
  "log_count (g_perf_context
     (perf_log_event example_env (Some [CHR ''a'', CHR 0x0A, CHR ''b'']) 1 started_world)) = 1 \<and>
   line_count (streams (perf_export_csv example_env (Some ''out.csv'')
     (perf_log_event example_env (Some [CHR ''a'', CHR 0x0A, CHR ''b'']) 1 started_world))
     (File_stream 0)) = 3"
proof -
  let ?w = "perf_log_event example_env (Some [CHR ''a'', CHR 0x0A, CHR ''b'']) 1 started_world"
  note ev = event_records [OF started_fields(1) started_not_full started_well_formed,
      of example_env "[CHR ''a'', CHR 0x0A, CHR ''b'']" 1 "Some []"]
  have cnt: "log_count (g_perf_context ?w) = 1" using ev(2) by (simp add: perf_log_event_def)
  have en: "enabled (config (g_perf_context ?w))" using ev(3) by (simp add: perf_log_event_def)
  have h1: "fopen_result example_env = Some (File_stream 0)" by (simp add: example_env_def)
  have "line_count (concat (map csv_row (records (g_perf_context ?w)))) = 2"
    using ev(1) by (simp add: perf_log_event_def line_count_csv_row bounded_label_def
        PERF_MAX_LABEL_LEN_def)
  then have "line_count (streams (perf_export_csv example_env (Some ''out.csv'') ?w) (File_stream 0)) = 3"
    by (simp add: export_streams [OF h1 en] line_count_csv_header)
  then show ?thesis using cnt by blast
qed

text \<open>
  C8. In a run of register and unregister calls that starts with no thread registered, in
  which no registered thread registers again, every unregister call is made by the
  registered thread that registered last, and at most \<^verbatim>\<open>PERF_MAX_THREADS\<close> threads are
  registered at a time: each call of \<^verbatim>\<open>perf_register_thread\<close> returns the number of
  registrations minus the number of unregistrations made before it, which is the number
  of threads registered at the call; registrations alone return \<open>0, 1, 2, ...\<close>; the
  registered threads hold the ids \<open>0, 1, 2, ...\<close> in the order of their registration;
  \<^verbatim>\<open>perf_unregister_thread\<close> decrements the active-thread counter; and the id of a thread
  that unregistered is assigned again: after a thread registers and unregisters, the next
  call of \<^verbatim>\<open>perf_register_thread\<close> returns the id that the thread had. Without the
  condition on the unregister calls an id is returned that a registered thread holds:
  register, register, then the first thread unregisters, register returns \<open>0, 1, 1\<close>, and
  the second and the third thread both hold the id \<open>1\<close>.
\<close>

theorem C8_indices_of_registered_threads:
  assumes "enabled (config (g_perf_context w))" and "track_threads (config (g_perf_context w))"
    and "active_threads (g_perf_context w) = 0"
    and "registered [] cs = Some live"
  shows "\<exists>w'. perf_run cs w = Inr w' \<and>
           thread_indices cs w = Inr (counter_ids 0 (map snd cs)) \<and>
           (map snd cs = replicate (length cs) Register_thread \<longrightarrow>
              thread_indices cs w = Inr (map int [0..<length cs])) \<and>
           active_threads (g_perf_context w') = int (length live) \<and>
           map (tls_thread_id w') (rev live) = map int [0..<length live] \<and>
           active_threads (g_perf_context (perf_unregister_thread env w'))
             = active_threads (g_perf_context w') - 1 \<and>
           (self env1 \<notin> set live \<and> self env2 = self env1 \<and> self env3 \<notin> set live \<and>
            length live < PERF_MAX_THREADS \<longrightarrow>
              thread_indices [(env1, Register_thread), (env2, Unregister_thread),
                              (env3, Register_thread)] w'
                = Inr [int (length live), int (length live)])"
proof -
  have on: "threads_on w" using assms(1,2) by (simp add: threads_on_def)
  have rng: "\<forall>i \<in> set (counter_ids (active_threads (g_perf_context w)) (map snd cs)).
               0 \<le> i \<and> i < int PERF_MAX_THREADS"
    using registered_range [OF assms(4)] assms(3) by simp
  have a: "thread_indices cs w = Inr (counter_ids 0 (map snd cs))"
    using thread_indices_counter [OF on registered_calls [OF assms(4)] rng] assms(3) by simp
  have b: "thread_indices cs w = Inr (map int [0..<length cs])"
    if "map snd cs = replicate (length cs) Register_thread"
    using a that counter_ids_registers [of 0 "length cs"] by simp
  from registered_run [OF assms(4) on] assms(3) obtain w' where
    r: "perf_run cs w = Inr w'" and on': "threads_on w'"
    and k: "active_threads (g_perf_context w') = int (length live)"
    and m: "map (tls_thread_id w') (rev live) = map int [0..<length live]"
    by auto
  let ?again = "[(env1, Register_thread), (env2, Unregister_thread), (env3, Register_thread)]"
  have c: "thread_indices ?again w' = Inr [int (length live), int (length live)]"
    if "length live < PERF_MAX_THREADS"
  proof -
    have s: "set (map snd ?again) \<subseteq> {Register_thread, Unregister_thread}" by simp
    have g: "\<forall>i \<in> set (counter_ids (active_threads (g_perf_context w')) (map snd ?again)).
               0 \<le> i \<and> i < int PERF_MAX_THREADS"
      using that k by simp
    show ?thesis using thread_indices_counter [OF on' s g] k by simp
  qed
  show ?thesis
  proof (intro exI [of _ w'] conjI)
    show "perf_run cs w = Inr w'" by (rule r)
    show "thread_indices cs w = Inr (counter_ids 0 (map snd cs))" by (rule a)
    show "map snd cs = replicate (length cs) Register_thread \<longrightarrow>
            thread_indices cs w = Inr (map int [0..<length cs])" using b by blast
    show "active_threads (g_perf_context w') = int (length live)" by (rule k)
    show "map (tls_thread_id w') (rev live) = map int [0..<length live]" by (rule m)
    show "active_threads (g_perf_context (perf_unregister_thread env w'))
            = active_threads (g_perf_context w') - 1" by (rule unregister_counter(2) [OF on'])
    show "self env1 \<notin> set live \<and> self env2 = self env1 \<and> self env3 \<notin> set live \<and>
            length live < PERF_MAX_THREADS \<longrightarrow>
            thread_indices ?again w' = Inr [int (length live), int (length live)]"
      using c by blast
  qed
qed

theorem C8_indices_of_registered_threads_witness:
  "enabled (config (g_perf_context started_world)) \<and>
   track_threads (config (g_perf_context started_world)) \<and>
   active_threads (g_perf_context started_world) = 0 \<and>
   registered [] [(thread_env 1, Register_thread), (thread_env 2, Register_thread),
                  (thread_env 2, Unregister_thread), (thread_env 3, Register_thread)] = Some [3, 1] \<and>
   (\<exists>w'. perf_run [(thread_env 1, Register_thread), (thread_env 2, Register_thread),
                    (thread_env 2, Unregister_thread), (thread_env 3, Register_thread)] started_world
            = Inr w' \<and>
          thread_indices [(thread_env 1, Register_thread), (thread_env 2, Register_thread),
                          (thread_env 2, Unregister_thread), (thread_env 3, Register_thread)]
            started_world = Inr [0, 1, 1] \<and>
          active_threads (g_perf_context w') = 2 \<and>
          map (tls_thread_id w') [1, 3] = [0, 1] \<and>
          active_threads (g_perf_context (perf_unregister_thread (thread_env 3) w')) = 1 \<and>
          thread_indices [(thread_env 4, Register_thread), (thread_env 4, Unregister_thread),
                          (thread_env 5, Register_thread)] w' = Inr [2, 2]) \<and>
   registered [] [(thread_env 1, Register_thread), (thread_env 2, Register_thread),
                  (thread_env 3, Register_thread)] = Some [3, 2, 1] \<and>
   thread_indices [(thread_env 1, Register_thread), (thread_env 2, Register_thread),
                   (thread_env 3, Register_thread)] started_world = Inr [0, 1, 2]"
proof -
  have h1: "enabled (config (g_perf_context started_world))" by simp
  have h2: "track_threads (config (g_perf_context started_world))" by simp
  have h3: "active_threads (g_perf_context started_world) = 0" by simp
  let ?cs = "[(thread_env 1, Register_thread), (thread_env 2, Register_thread),
              (thread_env 2, Unregister_thread), (thread_env 3, Register_thread)]"
  let ?again = "[(thread_env 4, Register_thread), (thread_env 4, Unregister_thread),
                 (thread_env 5, Register_thread)]"
  let ?rs = "[(thread_env 1, Register_thread), (thread_env 2, Register_thread),
              (thread_env 3, Register_thread)]"
  have h4: "registered [] ?cs = Some [3, 1]"
    by (simp add: thread_env_def PERF_MAX_THREADS_def)
  have h5: "registered [] ?rs = Some [3, 2, 1]"
    by (simp add: thread_env_def PERF_MAX_THREADS_def)
  have c: "counter_ids 0 (map snd ?cs) = [0, 1, 1]" by simp
  have l: "int (length [3::nat, 1]) = 2" by simp
  have u: "map int [0..<length [3::nat, 1]] = [0, 1]" by (simp add: upt_conv_Cons)
  have v: "rev [3::nat, 1] = [1, 3]" by simp
  have n: "self (thread_env 4) \<notin> set [3::nat, 1] \<and> self (thread_env 4) = self (thread_env 4) \<and>
           self (thread_env 5) \<notin> set [3::nat, 1] \<and> length [3::nat, 1] < PERF_MAX_THREADS"
    by (simp add: thread_env_def PERF_MAX_THREADS_def)
  from C8_indices_of_registered_threads [OF h1 h2 h3 h4,
      of "thread_env 3" "thread_env 4" "thread_env 4" "thread_env 5"] obtain w' where
    r: "perf_run ?cs started_world = Inr w'"
    and i: "thread_indices ?cs started_world = Inr (counter_ids 0 (map snd ?cs))"
    and k: "active_threads (g_perf_context w') = int (length [3::nat, 1])"
    and m: "map (tls_thread_id w') (rev [3, 1]) = map int [0..<length [3::nat, 1]]"
    and d: "active_threads (g_perf_context (perf_unregister_thread (thread_env 3) w'))
       = active_threads (g_perf_context w') - 1"
    and a: "self (thread_env 4) \<notin> set [3::nat, 1] \<and> self (thread_env 4) = self (thread_env 4) \<and>
              self (thread_env 5) \<notin> set [3::nat, 1] \<and> length [3::nat, 1] < PERF_MAX_THREADS \<longrightarrow>
            thread_indices ?again w' = Inr [int (length [3::nat, 1]), int (length [3::nat, 1])]"
    by (elim exE conjE) (rule that)
  from i have i': "thread_indices ?cs started_world = Inr [0, 1, 1]" by (simp only: c)
  from k have k': "active_threads (g_perf_context w') = 2" by (simp only: l)
  from m have m': "map (tls_thread_id w') [1, 3] = [0, 1]" by (simp only: u v)
  from d k' have d': "active_threads (g_perf_context (perf_unregister_thread (thread_env 3) w')) = 1"
    by simp
  from a n have "thread_indices ?again w' = Inr [int (length [3::nat, 1]), int (length [3::nat, 1])]"
    by (rule mp)
  then have a': "thread_indices ?again w' = Inr [2, 2]" by (simp only: l)
  have first: "\<exists>w'. perf_run ?cs started_world = Inr w' \<and>
      thread_indices ?cs started_world = Inr [0, 1, 1] \<and>
      active_threads (g_perf_context w') = 2 \<and>
      map (tls_thread_id w') [1, 3] = [0, 1] \<and>
      active_threads (g_perf_context (perf_unregister_thread (thread_env 3) w')) = 1 \<and>
      thread_indices ?again w' = Inr [2, 2]"
    by (intro conjI exI [of _ w']) (fact r i' k' m' d' a')+
  have o: "map snd ?rs = replicate (length ?rs) Register_thread"
    by (simp add: replicate_numeral_unfold)
  have z: "map int [0..<length ?rs] = [0, 1, 2]" by (simp add: upt_conv_Cons)
  from C8_indices_of_registered_threads [OF h1 h2 h3 h5,
      of "thread_env 3" "thread_env 4" "thread_env 4" "thread_env 5"]
  have "map snd ?rs = replicate (length ?rs) Register_thread \<longrightarrow>
       thread_indices ?rs started_world = Inr (map int [0..<length ?rs])"
    by (elim exE conjE)
  from this o have "thread_indices ?rs started_world = Inr (map int [0..<length ?rs])"
    by (rule mp)
  then have second: "thread_indices ?rs started_world = Inr [0, 1, 2]" by (simp only: z)
  show ?thesis
    by (intro conjI) (fact h1 h2 h3 h4 h5 first second)+
qed

theorem C8_counterexample:
  "thread_indices [(example_env, Register_thread), (example_env, Unregister_thread),
                   (example_env, Register_thread)] started_world = Inr [0, 0] \<and>
   thread_indices [(thread_env 1, Register_thread), (thread_env 2, Register_thread),
                   (thread_env 1, Unregister_thread), (thread_env 3, Register_thread)] started_world
     = Inr [0, 1, 1] \<and>
   held_ids [2, 3] [(thread_env 1, Register_thread), (thread_env 2, Register_thread),
                    (thread_env 1, Unregister_thread), (thread_env 3, Register_thread)] started_world
     = Inr [1, 1]"
  by (simp add: perf_register_thread_def perf_unregister_thread_def Let_def PERF_MAX_THREADS_def
      thread_env_def held_ids_def)

text \<open>
  C9. A record published by \<^verbatim>\<open>perf_log_event_with_context\<close> occupies the slot at index
  \<^verbatim>\<open>log_count\<close>; the call writes the fields milestone, timestamp, duration, thread count,
  label and context of that slot and leaves its iteration number, convergence metric,
  memory and CPU fields as they were before the call. A record published by
  \<^verbatim>\<open>perf_end_milestone_labeled\<close> has iteration number and convergence metric zero.
\<close>

theorem C9_event_frame:
  assumes "enabled (config (g_perf_context w))"
    and "log_count (g_perf_context w) < log_capacity (g_perf_context w)"
    and "well_formed (g_perf_context w)"
    and "old = log_entries (g_perf_context w) ! log_count (g_perf_context w)"
    and "new = log_entries (g_perf_context (perf_log_event_with_context env (Some l) v c w))
                 ! log_count (g_perf_context w)"
    and "new' = log_entries (g_perf_context (perf_end_milestone_labeled env' m l' w))
                 ! log_count (g_perf_context w)"
  shows "log_count (g_perf_context (perf_log_event_with_context env (Some l) v c w))
           = log_count (g_perf_context w) + 1 \<and>
         iteration_number new = iteration_number old \<and>
         convergence_metric new = convergence_metric old \<and>
         memory new = memory old \<and>
         cpu new = cpu old \<and>
         milestone new = PERF_MILESTONE_USER_1 \<and>
         timestamp new = perf_get_timestamp env \<and>
         duration_ms new = v \<and>
         thread_count new = active_threads (g_perf_context w) \<and>
         label new = bounded_label l \<and>
         context_str new = (case c of Some s \<Rightarrow> bounded_label s | None \<Rightarrow> []) \<and>
         (m < PERF_MILESTONE_COUNT \<and> milestone_active (g_perf_context w) ! m \<longrightarrow>
            iteration_number new' = 0 \<and> convergence_metric new' = 0)"
proof -
  have len: "log_count (g_perf_context w) < length (log_entries (g_perf_context w))"
    using assms(2,3) by (simp add: well_formed_def)
  have ev: "log_count (g_perf_context (perf_log_event_with_context env (Some l) v c w))
           = log_count (g_perf_context w) + 1 \<and>
         iteration_number new = iteration_number old \<and>
         convergence_metric new = convergence_metric old \<and>
         memory new = memory old \<and>
         cpu new = cpu old \<and>
         milestone new = PERF_MILESTONE_USER_1 \<and>
         timestamp new = perf_get_timestamp env \<and>
         duration_ms new = v \<and>
         thread_count new = active_threads (g_perf_context w) \<and>
         label new = bounded_label l \<and>
         context_str new = (case c of Some s \<Rightarrow> bounded_label s | None \<Rightarrow> [])"
    using assms(1,2) len
    by (simp add: assms(4,5) perf_log_event_with_context_def Let_def perf_get_thread_count_def)
  have en: "iteration_number new' = 0 \<and> convergence_metric new' = 0"
    if "m < PERF_MILESTONE_COUNT" "milestone_active (g_perf_context w) ! m"
    using end_active_record(4,5) [OF assms(1) that assms(2)] assms(3)
    by (simp add: assms(6) well_formed_def)
  show ?thesis using ev en by blast
qed

theorem C9_event_frame_witness:
  "enabled (config (g_perf_context started_world)) \<and>
   log_count (g_perf_context started_world) < log_capacity (g_perf_context started_world) \<and>
   well_formed (g_perf_context started_world) \<and>
   iteration_number (log_entries (g_perf_context started_world) ! 0) = 7 \<and>
   iteration_number (log_entries (g_perf_context
      (perf_log_event_with_context example_env (Some ''d'') 1 None started_world)) ! 0) = 7 \<and>
   convergence_metric (log_entries (g_perf_context
      (perf_log_event_with_context example_env (Some ''d'') 1 None started_world)) ! 0) = 1 / 2 \<and>
   19 < PERF_MILESTONE_COUNT \<and>
   milestone_active (g_perf_context (perf_start_milestone_labeled example_env 19 None started_world)) ! 19 \<and>
   iteration_number (log_entries (g_perf_context
      (perf_end_milestone_labeled example_env 19 None
         (perf_start_milestone_labeled example_env 19 None started_world))) ! 0) = 0"
proof -
  let ?s = "perf_start_milestone_labeled example_env 19 None started_world"
  have h1: "enabled (config (g_perf_context started_world))" by simp
  have h2: "log_count (g_perf_context started_world) < log_capacity (g_perf_context started_world)"
    by (simp add: PERF_MAX_LOG_ENTRIES_def)
  have h3: "well_formed (g_perf_context started_world)" by simp
  have k: "(19::nat) < PERF_MILESTONE_COUNT" by (simp add: PERF_MILESTONE_COUNT_def)
  have s1: "enabled (config (g_perf_context ?s))" by (simp add: start_frame)
  have s2: "log_count (g_perf_context ?s) < log_capacity (g_perf_context ?s)"
    using h2 by (simp add: start_frame)
  have s3: "well_formed (g_perf_context ?s)"
    by (simp add: well_formed_def perf_start_milestone_labeled_def Let_def)
  have s4: "milestone_active (g_perf_context ?s) ! 19"
    using start_fields(2) [OF h1 k h3] by simp
  have o: "log_entries (g_perf_context started_world) ! 0 = stale_entry"
    by (simp add: PERF_MAX_LOG_ENTRIES_def)
  note a = C9_event_frame [where env = example_env and l = "''d''" and v = 1 and c = None
      and env' = example_env and m = 19 and l' = None, OF h1 h2 h3 refl refl refl]
  note b = C9_event_frame [where env = example_env and l = "''d''" and v = 1 and c = None
      and env' = example_env and m = 19 and l' = None, OF s1 s2 s3 refl refl refl]
  have r1: "iteration_number (log_entries (g_perf_context
      (perf_log_event_with_context example_env (Some ''d'') 1 None started_world)) ! 0) = 7"
    using a o by (simp add: stale_entry_def)
  have r2: "convergence_metric (log_entries (g_perf_context
      (perf_log_event_with_context example_env (Some ''d'') 1 None started_world)) ! 0) = 1 / 2"
    using a o by (simp add: stale_entry_def)
  have r3: "iteration_number (log_entries (g_perf_context
      (perf_end_milestone_labeled example_env 19 None ?s)) ! 0) = 0"
    using b k s4 by (simp add: start_frame)
  have r0: "iteration_number (log_entries (g_perf_context started_world) ! 0) = 7"
    using o by (simp add: stale_entry_def)
  show ?thesis using h1 h2 h3 k s4 r0 r1 r2 r3 by blast
qed

text \<open>
  C10. \<^verbatim>\<open>perf_get_milestone_statistics(m, stats)\<close> returns \<open>0\<close> or \<open>-1\<close>. It returns \<open>0\<close>
  exactly when \<open>stats\<close> is not null, \<open>m\<close> is in range, the allocation succeeds and the
  buffer holds a record of kind \<open>m\<close>; the sample count is then the number of these
  records. When \<open>m\<close> is out of range the function returns before it clears the structure,
  which is left as it was; in the other failing cases with a non-null pointer the
  structure is left zeroed. The last theorem is the call with \<open>m = PERF_MILESTONE_COUNT\<close> on a
  structure whose sample count is 5: it returns \<open>-1\<close> and the sample count is still 5.
\<close>

theorem C10_statistics_result:
  assumes "res = perf_get_milestone_statistics env m stats g"
  shows "(fst res = 0 \<or> fst res = - 1) \<and>
         (fst res = 0 \<longleftrightarrow>
            stats \<noteq> None \<and> m < PERF_MILESTONE_COUNT \<and> malloc_ok env \<and>
            (\<exists>e \<in> set (records g). milestone e = m)) \<and>
         (stats = None \<longrightarrow> snd res = None) \<and>
         (stats \<noteq> None \<and> PERF_MILESTONE_COUNT \<le> m \<longrightarrow> snd res = stats) \<and>
         (stats \<noteq> None \<and> m < PERF_MILESTONE_COUNT \<and> fst res = - 1 \<longrightarrow>
            snd res = Some zero_statistics) \<and>
         (fst res = 0 \<longrightarrow>
            (\<exists>s. snd res = Some s \<and> sample_count s = length (collect_samples m g) \<and>
                 0 < sample_count s))"
proof (cases stats)
  case None
  then show ?thesis using assms by (simp add: perf_get_milestone_statistics_def)
next
  case (Some s0)
  show ?thesis
  proof (cases "PERF_MILESTONE_COUNT \<le> m")
    case True
    then show ?thesis using assms Some by (simp add: perf_get_milestone_statistics_def)
  next
    case inrange: False
    show ?thesis
    proof (cases "malloc_ok env")
      case False
      then show ?thesis using assms Some inrange
        by (simp add: perf_get_milestone_statistics_def)
    next
      case True
      show ?thesis
      proof (cases "collect_samples m g = []")
        case empty: True
        then have "\<not> (\<exists>e \<in> set (records g). milestone e = m)"
          by (simp add: collect_samples_empty)
        then show ?thesis using assms Some inrange True empty
          by (simp add: perf_get_milestone_statistics_def)
      next
        case nonempty: False
        then have ex: "\<exists>e \<in> set (records g). milestone e = m"
          by (simp add: collect_samples_empty)
        have r: "fst res = 0" using assms Some inrange True nonempty
          by (simp add: perf_get_milestone_statistics_def Let_def)
        have s: "\<exists>s. snd res = Some s \<and> sample_count s = length (collect_samples m g)"
          using assms Some inrange True nonempty
          by (simp add: perf_get_milestone_statistics_def Let_def fold_stats_sample_count)
        show ?thesis using r s ex Some inrange True nonempty by auto
      qed
    qed
  qed
qed

theorem C10_statistics_result_witness:
  "fst (perf_get_milestone_statistics example_env PERF_MILESTONE_USER_1 (Some (zero_statistics\<lparr>sample_count := 5\<rparr>))
     (g_perf_context (perf_log_event_with_context example_env (Some ''d'') 3 None started_world))) = 0 \<and>
   PERF_MILESTONE_USER_1 < PERF_MILESTONE_COUNT \<and> malloc_ok example_env \<and>
   fst (perf_get_milestone_statistics example_env 19 (Some (zero_statistics\<lparr>sample_count := 5\<rparr>))
     (g_perf_context (perf_log_event_with_context example_env (Some ''d'') 3 None started_world))) = - 1 \<and>
   snd (perf_get_milestone_statistics example_env 19 (Some (zero_statistics\<lparr>sample_count := 5\<rparr>))
     (g_perf_context (perf_log_event_with_context example_env (Some ''d'') 3 None started_world)))
     = Some zero_statistics"
proof -
  let ?g = "g_perf_context (perf_log_event_with_context example_env (Some ''d'') 3 None started_world)"
  let ?s = "Some (zero_statistics\<lparr>sample_count := 5\<rparr>)"
  have recs: "map milestone (records ?g) = [PERF_MILESTONE_USER_1]"
    by (simp add: records_def perf_log_event_with_context_def Let_def PERF_MAX_LOG_ENTRIES_def
        take_one_update)
  then obtain e where e: "records ?g = [e]" "milestone e = PERF_MILESTONE_USER_1"
    by (auto simp add: map_eq_Cons_conv)
  have k: "PERF_MILESTONE_USER_1 < PERF_MILESTONE_COUNT" "(19::nat) < PERF_MILESTONE_COUNT"
    "PERF_MILESTONE_USER_1 \<noteq> 19"
    by (simp_all add: PERF_MILESTONE_USER_1_def PERF_MILESTONE_COUNT_def)
  have mo: "malloc_ok example_env" by (simp add: example_env_def)
  have ex: "\<exists>e \<in> set (records ?g). milestone e = PERF_MILESTONE_USER_1"
    using e by simp
  have nex: "\<not> (\<exists>e \<in> set (records ?g). milestone e = 19)"
    using e k(3) by simp
  note a = C10_statistics_result [OF refl, of example_env PERF_MILESTONE_USER_1 ?s ?g]
  note b = C10_statistics_result [OF refl, of example_env 19 ?s ?g]
  have r1: "fst (perf_get_milestone_statistics example_env PERF_MILESTONE_USER_1 ?s ?g) = 0"
    using a k mo ex by blast
  have r2: "fst (perf_get_milestone_statistics example_env 19 ?s ?g) = - 1"
    using b nex by blast
  have r3: "snd (perf_get_milestone_statistics example_env 19 ?s ?g) = Some zero_statistics"
    using b r2 k by blast
  show ?thesis using r1 r2 r3 k mo by blast
qed

theorem C10_counterexample:
  "perf_get_milestone_statistics example_env PERF_MILESTONE_COUNT
     (Some (zero_statistics\<lparr>sample_count := 5\<rparr>)) (g_perf_context started_world)
     = (- 1, Some (zero_statistics\<lparr>sample_count := 5\<rparr>)) \<and>
   sample_count (zero_statistics\<lparr>sample_count := 5\<rparr>) \<noteq> 0"
  by (simp add: perf_get_milestone_statistics_def)

end
